theory Spec2Isabelle
  imports Main
begin

section \<open>Tensors and the array operations \<open>forward\<close> uses\<close>

text \<open>
  A tensor is its shape and its elements in row-major order. A tensor of the array
  library always holds as many elements as its shape says (\<open>wf_tensor\<close>).
  Scores are values of a linear order with a zero (no NaN); token ids and argmax
  indices are integers. The device of a tensor plays no part in the values
  \<open>forward\<close> computes and is left out. The element type matters at one place:
  the output is allocated by \<^verbatim>\<open>torch.zeros\<close> without a dtype, so it is a float32
  tensor, and an assignment into it converts the assigned scores to float32.
  The scores of the decoder have the type \<open>'a\<close>, the elements of the output the
  type \<open>'b\<close>, and the conversion is a function from \<open>'a\<close> to \<open>'b\<close>.
\<close>

record 'a tensor =
  shape :: "nat list"
  elems :: "'a list"

definition wf_tensor :: "'a tensor \<Rightarrow> bool" where
  "wf_tensor t = (length (elems t) = prod_list (shape t))"

text \<open>
  The exceptions a call can end with: \<open>IndexError\<close> and \<open>RuntimeError\<close> are
  raised by the array library (an index or a dimension out of range; a shape that
  does not fit), \<open>Raised e\<close> is an exception \<open>e\<close> of the encoder or of the
  decoder, which \<open>forward\<close> does not catch.
\<close>

datatype 'e error = IndexError | RuntimeError | Raised 'e

text \<open>\<^verbatim>\<open>t.shape[i]\<close>\<close>

definition shape_at :: "'a tensor \<Rightarrow> nat \<Rightarrow> 'e error + nat" where
  "shape_at t i = (if i < length (shape t) then Inr (shape t ! i) else Inl IndexError)"

text \<open>\<^verbatim>\<open>torch.zeros(size=s)\<close>\<close>

definition zeros :: "nat list \<Rightarrow> ('a::zero) tensor" where
  "zeros s = \<lparr>shape = s, elems = replicate (prod_list s) 0\<rparr>"

text \<open>
  \<^verbatim>\<open>t[:, j]\<close> for \<open>0 \<le> j\<close>: the tensor needs two dimensions at least and
  \<open>j\<close> must be an index of the second one; the result drops that dimension.
  Element \<open>k\<close> of the result is element \<open>(b, j, r)\<close> of \<open>t\<close>, where \<open>b\<close> and
  \<open>r\<close> are the coordinates of \<open>k\<close> in the first and in the remaining dimensions.
\<close>

definition select_dim1 :: "'a tensor \<Rightarrow> nat \<Rightarrow> 'e error + 'a tensor" where
  "select_dim1 t j =
     (case shape t of
        d0 # d1 # rest \<Rightarrow>
          (let inner = prod_list rest in
           if j < d1 then
             Inr \<lparr>shape = d0 # rest,
                  elems = map (\<lambda>k. elems t ! ((k div inner * d1 + j) * inner + k mod inner))
                              [0..<d0 * inner]\<rparr>
           else Inl IndexError)
      | _ \<Rightarrow> Inl IndexError)"

text \<open>
  \<^verbatim>\<open>t.reshape(shape=s)\<close> for a shape \<open>s\<close> without \<open>-1\<close>: the elements stay, in
  the same order; the call raises when \<open>s\<close> holds another number of elements.
\<close>

definition reshape :: "'a tensor \<Rightarrow> nat list \<Rightarrow> 'e error + 'a tensor" where
  "reshape t s =
     (if prod_list s = prod_list (shape t) then Inr \<lparr>shape = s, elems = elems t\<rparr>
      else Inl RuntimeError)"

text \<open>
  Expanding the elements of a tensor of shape \<open>src\<close> to the shape \<open>dst\<close> of the
  same number of dimensions: a dimension of size 1 is repeated.
\<close>

fun expand_elems :: "nat list \<Rightarrow> nat list \<Rightarrow> 'a list \<Rightarrow> 'a list" where
  "expand_elems (s # ss) (d # ds) xs =
     concat (map (\<lambda>k. expand_elems ss ds
                         (take (prod_list ss) (drop ((if s = 1 then 0 else k) * prod_list ss) xs)))
                 [0..<d])"
| "expand_elems _ _ xs = xs"

text \<open>
  The value of an indexed assignment is fitted to the indexed slice as the array
  library does: the leading dimensions of size 1 of the value are dropped, and what
  is left is broadcast to the shape \<open>dst\<close> of the slice (aligned at the last
  dimension, each dimension either equal or 1); a value that does not broadcast
  raises.
\<close>

definition broadcast_value :: "nat list \<Rightarrow> 'a tensor \<Rightarrow> 'e error + 'a tensor" where
  "broadcast_value dst v =
     (let s = dropWhile (\<lambda>d. d = 1) (shape v);
          padded = replicate (length dst - length s) 1 @ s
      in if length s \<le> length dst \<and> list_all2 (\<lambda>a d. a = d \<or> a = 1) padded dst
         then Inr \<lparr>shape = dst, elems = expand_elems padded dst (elems v)\<rparr>
         else Inl RuntimeError)"

text \<open>
  \<^verbatim>\<open>t.to(dtype)\<close>: the element type of a tensor is changed by converting each
  element with \<open>f\<close>.
\<close>

definition convert_tensor :: "('a \<Rightarrow> 'b) \<Rightarrow> 'a tensor \<Rightarrow> 'b tensor" where
  "convert_tensor f t = \<lparr>shape = shape t, elems = map f (elems t)\<rparr>"

text \<open>
  What an indexed assignment of \<open>v\<close> stores in a slice of shape \<open>dst\<close> of a
  tensor with another element type: \<open>v\<close> broadcast to \<open>dst\<close> and converted.
\<close>

definition assigned_value :: "('a \<Rightarrow> 'b) \<Rightarrow> nat list \<Rightarrow> 'a tensor \<Rightarrow> 'e error + 'b tensor" where
  "assigned_value f dst v =
     (case broadcast_value dst v of
        Inl e \<Rightarrow> Inl e
      | Inr bv \<Rightarrow> Inr (convert_tensor f bv))"

text \<open>
  \<^verbatim>\<open>out[:, i] = v\<close> for \<open>0 \<le> i\<close>, where \<open>f\<close> converts the elements of
  \<open>v\<close> to the element type of \<open>out\<close>: the slice is taken first (with the checks
  of \<open>select_dim1\<close>), then \<open>v\<close> is broadcast to it, converted and copied; the
  other elements of \<open>out\<close> stay. The source mutates \<open>out\<close>; the model returns
  the new tensor.
\<close>

definition setitem_dim1 ::
  "('a \<Rightarrow> 'b) \<Rightarrow> 'b tensor \<Rightarrow> nat \<Rightarrow> 'a tensor \<Rightarrow> 'e error + 'b tensor" where
  "setitem_dim1 f out i v =
     (case shape out of
        d0 # d1 # rest \<Rightarrow>
          (let inner = prod_list rest in
           if i < d1 then
             (case assigned_value f (d0 # rest) v of
                Inl e \<Rightarrow> Inl e
              | Inr av \<Rightarrow>
                  Inr (out\<lparr>elems :=
                         map (\<lambda>k. if (k div inner) mod d1 = i
                                   then elems av ! (k div (d1 * inner) * inner + k mod inner)
                                   else elems out ! k)
                             [0..<d0 * d1 * inner]\<rparr>))
           else Inl IndexError)
      | _ \<Rightarrow> Inl IndexError)"

text \<open>
  The index of the first maximal element of a list: \<open>argmax_from best bi i xs\<close> scans
  \<open>xs\<close>, whose first element has index \<open>i\<close>, with the best value \<open>best\<close> seen so
  far at index \<open>bi\<close>; only a strictly greater element replaces it.
\<close>

fun argmax_from :: "('a::linorder) \<Rightarrow> nat \<Rightarrow> nat \<Rightarrow> 'a list \<Rightarrow> nat" where
  "argmax_from best bi i [] = bi"
| "argmax_from best bi i (x # xs) =
     (if best < x then argmax_from x i (Suc i) xs else argmax_from best bi (Suc i) xs)"

definition argmax_list :: "('a::linorder) list \<Rightarrow> nat" where
  "argmax_list xs = (case xs of [] \<Rightarrow> 0 | x # ys \<Rightarrow> argmax_from x 0 1 ys)"

text \<open>
  \<^verbatim>\<open>t.argmax(1)\<close>: the tensor needs two dimensions at least, and the second one
  must not be empty; the result drops that dimension and holds, for each position
  of the other dimensions, the first index along the second one where the maximum
  stands.
\<close>

definition argmax_dim1 :: "('a::linorder) tensor \<Rightarrow> 'e error + int tensor" where
  "argmax_dim1 t =
     (case shape t of
        d0 # d1 # rest \<Rightarrow>
          (let inner = prod_list rest in
           if 0 < d1 then
             Inr \<lparr>shape = d0 # rest,
                  elems = map (\<lambda>k. int (argmax_list
                                     (map (\<lambda>j. elems t ! ((k div inner * d1 + j) * inner + k mod inner))
                                          [0..<d1])))
                              [0..<d0 * inner]\<rparr>
           else Inl IndexError)
      | _ \<Rightarrow> Inl IndexError)"


section \<open>The model and its collaborators\<close>

text \<open>
  The encoder and the decoder are the modules given to the constructor. A call of
  the encoder on the source tokens returns the hidden and the cell layers, or
  raises; a call of the decoder on an input, a hidden and a cell layer returns its
  output and the new layers, or raises. \<open>fc_out_out_features\<close> is the decoder's
  \<^verbatim>\<open>fc_out.out_features\<close>, and \<open>to_float32\<close> is the conversion of the array
  library from the element type of the decoder's output to float32 (the identity
  for a decoder whose output is float32). The third field of the source, the
  device, is only where \<^verbatim>\<open>torch.zeros\<close> places the output.
\<close>

record ('a, 'b, 'h, 'c, 'e) Decoder =
  fc_out_out_features :: nat
  to_float32 :: "'a \<Rightarrow> 'b"
  decoder_call :: "int tensor \<Rightarrow> 'h \<Rightarrow> 'c \<Rightarrow> 'e + ('a tensor \<times> 'h \<times> 'c)"

record ('a, 'b, 'h, 'c, 'e) SequenceToSequence =
  encoder :: "int tensor \<Rightarrow> 'e + ('h \<times> 'c)"
  decoder :: "('a, 'b, 'h, 'c, 'e) Decoder"

text \<open>
  What a call of \<open>forward\<close> does that a caller of the collaborators can see, in
  program order: the calls of the encoder and of the decoder with their arguments,
  and the assignments \<^verbatim>\<open>output[:, i] = v\<close> that were carried out.
\<close>

datatype ('a, 'h, 'c) event =
    EncoderCall "int tensor"
  | DecoderCall "int tensor" 'h 'c
  | OutputWrite nat "'a tensor"

fun encoder_calls :: "('a, 'h, 'c) event list \<Rightarrow> int tensor list" where
  "encoder_calls [] = []"
| "encoder_calls (EncoderCall s # es) = s # encoder_calls es"
| "encoder_calls (_ # es) = encoder_calls es"

fun decoder_inputs :: "('a, 'h, 'c) event list \<Rightarrow> int tensor list" where
  "decoder_inputs [] = []"
| "decoder_inputs (DecoderCall x h c # es) = x # decoder_inputs es"
| "decoder_inputs (_ # es) = decoder_inputs es"

fun output_writes :: "('a, 'h, 'c) event list \<Rightarrow> (nat \<times> 'a tensor) list" where
  "output_writes [] = []"
| "output_writes (OutputWrite i v # es) = (i, v) # output_writes es"
| "output_writes (_ # es) = output_writes es"

fun decoder_calls :: "('a, 'h, 'c) event list \<Rightarrow> (int tensor \<times> 'h \<times> 'c) list" where
  "decoder_calls [] = []"
| "decoder_calls (DecoderCall x h c # es) = (x, h, c) # decoder_calls es"
| "decoder_calls (_ # es) = decoder_calls es"


section \<open>\<open>SequenceToSequence.forward\<close>\<close>

text \<open>The variables the loop of \<open>forward\<close> updates (\<open>output_tensor\<close> is the
  source's \<^verbatim>\<open>output\<close>), and the events so far.\<close>

record ('a, 'b, 'h, 'c) loop_state =
  output_tensor :: "'b tensor"
  hidden_layer :: 'h
  cell_layer :: 'c
  target_input :: "int tensor"
  trace :: "('a, 'h, 'c) event list"

text \<open>
  \<^verbatim>\<open>tokenized_target_sentence[:, i].reshape(shape=(batch_size, 1))\<close>
\<close>

definition target_column :: "int tensor \<Rightarrow> nat \<Rightarrow> nat \<Rightarrow> 'e error + int tensor" where
  "target_column tgt batch_size i =
     (case select_dim1 tgt i of
        Inl e \<Rightarrow> Inl e
      | Inr col \<Rightarrow> reshape col [batch_size, 1])"

text \<open>
  The body of the loop at \<open>prediction_index\<close>. An exception ends the call: the
  result is then the events up to it and the exception.
\<close>

definition loop_body ::
  "('a::linorder, 'b::zero, 'h, 'c, 'e) SequenceToSequence \<Rightarrow> int tensor \<Rightarrow> bool \<Rightarrow> nat \<Rightarrow> nat \<Rightarrow>
   ('a, 'b, 'h, 'c) loop_state \<Rightarrow>
   (('a, 'h, 'c) event list \<times> 'e error) + ('a, 'b, 'h, 'c) loop_state" where
  "loop_body m tgt teacher_forcing batch_size prediction_index st =
     (let tr1 = trace st @ [DecoderCall (target_input st) (hidden_layer st) (cell_layer st)] in
      case decoder_call (decoder m) (target_input st) (hidden_layer st) (cell_layer st) of
        Inl e \<Rightarrow> Inl (tr1, Raised e)
      | Inr (decoder_output, h, c) \<Rightarrow>
          (case setitem_dim1 (to_float32 (decoder m)) (output_tensor st) prediction_index
                  decoder_output of
             Inl e \<Rightarrow> Inl (tr1, e)
           | Inr out \<Rightarrow>
               (let tr2 = tr1 @ [OutputWrite prediction_index decoder_output] in
                case (if teacher_forcing then target_column tgt batch_size prediction_index
                      else argmax_dim1 decoder_output) of
                  Inl e \<Rightarrow> Inl (tr2, e)
                | Inr inp \<Rightarrow>
                    Inr \<lparr>output_tensor = out, hidden_layer = h, cell_layer = c,
                         target_input = inp, trace = tr2\<rparr>)))"

text \<open>\<^verbatim>\<open>for prediction_index in ...\<close> over the list of the indices.\<close>

fun decode_loop ::
  "('a::linorder, 'b::zero, 'h, 'c, 'e) SequenceToSequence \<Rightarrow> int tensor \<Rightarrow> bool \<Rightarrow> nat \<Rightarrow> nat list \<Rightarrow>
   ('a, 'b, 'h, 'c) loop_state \<Rightarrow>
   (('a, 'h, 'c) event list \<times> 'e error) + ('a, 'b, 'h, 'c) loop_state" where
  "decode_loop m tgt teacher_forcing batch_size [] st = Inr st"
| "decode_loop m tgt teacher_forcing batch_size (i # is) st =
     (case loop_body m tgt teacher_forcing batch_size i st of
        Inl x \<Rightarrow> Inl x
      | Inr st' \<Rightarrow> decode_loop m tgt teacher_forcing batch_size is st')"

text \<open>
  The body of \<open>forward\<close> for a given value of \<open>teacher_forcing\<close>. The result is
  the events of the call and either the exception it ended with or the tensor it
  returned.
\<close>

definition forward_body ::
  "('a::linorder, 'b::zero, 'h, 'c, 'e) SequenceToSequence \<Rightarrow> int tensor \<Rightarrow> int tensor \<Rightarrow> bool \<Rightarrow>
   ('a, 'h, 'c) event list \<times> ('e error + 'b tensor)" where
  "forward_body m tokenized_source_sentence tokenized_target_sentence teacher_forcing =
     (case shape_at tokenized_source_sentence 0 of
        Inl e \<Rightarrow> ([], Inl e)
      | Inr batch_size \<Rightarrow>
     (case shape_at tokenized_target_sentence 1 of
        Inl e \<Rightarrow> ([], Inl e)
      | Inr target_sentence_length \<Rightarrow>
     (let target_sentence_vocab_length = fc_out_out_features (decoder m);
          out0 = zeros [batch_size, target_sentence_length, target_sentence_vocab_length];
          tr0 = [EncoderCall tokenized_source_sentence]
      in case encoder m tokenized_source_sentence of
        Inl e \<Rightarrow> (tr0, Inl (Raised e))
      | Inr (h0, c0) \<Rightarrow>
     (case target_column tokenized_target_sentence batch_size 0 of
        Inl e \<Rightarrow> (tr0, Inl e)
      | Inr inp0 \<Rightarrow>
     (case decode_loop m tokenized_target_sentence teacher_forcing batch_size
             [1..<target_sentence_length]
             \<lparr>output_tensor = out0, hidden_layer = h0, cell_layer = c0,
              target_input = inp0, trace = tr0\<rparr> of
        Inl (tr, e) \<Rightarrow> (tr, Inl e)
      | Inr st \<Rightarrow> (trace st, Inr (output_tensor st)))))))"

text \<open>
  \<open>forward\<close> with its optional argument: \<^verbatim>\<open>teacher_forcing: bool = True\<close>.
  \<open>None\<close> is a call that leaves the argument out.
\<close>

definition forward ::
  "('a::linorder, 'b::zero, 'h, 'c, 'e) SequenceToSequence \<Rightarrow> int tensor \<Rightarrow> int tensor \<Rightarrow> bool option \<Rightarrow>
   ('a, 'h, 'c) event list \<times> ('e error + 'b tensor)" where
  "forward m tokenized_source_sentence tokenized_target_sentence teacher_forcing =
     forward_body m tokenized_source_sentence tokenized_target_sentence
       (case teacher_forcing of None \<Rightarrow> True | Some b \<Rightarrow> b)"

text \<open>The two parts of the result of a call.\<close>

abbreviation events :: "'x \<times> 'y \<Rightarrow> 'x" where
  "events r \<equiv> fst r"

abbreviation outcome :: "'x \<times> 'y \<Rightarrow> 'y" where
  "outcome r \<equiv> snd r"


section \<open>Example collaborators and inputs\<close>

text \<open>
  The scores of the example decoders are float32 values that are whole numbers,
  written as integers; their conversion to float32 is the identity.

  A decoder whose output does not depend on its input: two rows of three scores, each
  with its maximum at two places. The encoder of \<open>example_model\<close> returns,
  that of \<open>failing_encoder_model\<close> raises.
\<close>

definition example_decoder :: "(int, int, nat, nat, string) Decoder" where
  "example_decoder =
     \<lparr>fc_out_out_features = 3,
      to_float32 = (\<lambda>x. x),
      decoder_call = (\<lambda>inp h c. Inr (\<lparr>shape = [2, 3], elems = [1, 5, 5, 7, 2, 7]\<rparr>, Suc h, c))\<rparr>"

definition example_model :: "(int, int, nat, nat, string) SequenceToSequence" where
  "example_model = \<lparr>encoder = (\<lambda>s. Inr (0, 0)), decoder = example_decoder\<rparr>"

definition failing_encoder_model :: "(int, int, nat, nat, string) SequenceToSequence" where
  "failing_encoder_model = \<lparr>encoder = (\<lambda>s. Inl ''bad token''), decoder = example_decoder\<rparr>"

definition example_source :: "int tensor" where
  "example_source = \<lparr>shape = [2, 2], elems = [4, 3, 2, 1]\<rparr>"

definition example_target :: "int tensor" where
  "example_target = \<lparr>shape = [2, 3], elems = [0, 1, 2, 0, 4, 1]\<rparr>"


text \<open>
  A decoder over a vocabulary of five tokens whose scores are, for each token of its
  input, 1 at the next token (modulo 5) and 0 elsewhere, with an encoder that
  returns; a source and a target of batch size 2, the target of length 4, and the
  tensor \<open>scenario_output\<close> that \<open>forward\<close> returns on them with teacher forcing.
  \<open>column_only_model\<close> has the same encoder and a decoder that returns the same on
  an input of two dimensions and raises on any other input.
\<close>

definition one_hot :: "nat \<Rightarrow> nat \<Rightarrow> int list" where
  "one_hot n i = map (\<lambda>k. if k = i then 1 else 0) [0..<n]"

definition next_token_decoder :: "(int, int, nat, nat, string) Decoder" where
  "next_token_decoder =
     \<lparr>fc_out_out_features = 5,
      to_float32 = (\<lambda>x. x),
      decoder_call = (\<lambda>inp h c.
        Inr (\<lparr>shape = [length (elems inp), 5],
              elems = concat (map (\<lambda>x. one_hot 5 (nat ((x + 1) mod 5))) (elems inp))\<rparr>,
             Suc h, c))\<rparr>"

definition next_token_model :: "(int, int, nat, nat, string) SequenceToSequence" where
  "next_token_model = \<lparr>encoder = (\<lambda>s. Inr (0, 0)), decoder = next_token_decoder\<rparr>"

definition column_only_decoder :: "(int, int, nat, nat, string) Decoder" where
  "column_only_decoder =
     \<lparr>fc_out_out_features = 5,
      to_float32 = (\<lambda>x. x),
      decoder_call = (\<lambda>inp h c.
        if length (shape inp) = 2 then decoder_call next_token_decoder inp h c
        else Inl ''input without a time axis'')\<rparr>"

definition column_only_model :: "(int, int, nat, nat, string) SequenceToSequence" where
  "column_only_model = \<lparr>encoder = (\<lambda>s. Inr (0, 0)), decoder = column_only_decoder\<rparr>"

definition scenario_source :: "int tensor" where
  "scenario_source = \<lparr>shape = [2, 3], elems = [3, 1, 4, 1, 2, 2]\<rparr>"

definition scenario_target :: "int tensor" where
  "scenario_target = \<lparr>shape = [2, 4], elems = [0, 1, 2, 3, 0, 4, 1, 2]\<rparr>"


definition scenario_output :: "int tensor" where
  "scenario_output =
     \<lparr>shape = [2, 4, 5],
      elems = [0, 0, 0, 0, 0,  0, 1, 0, 0, 0,  0, 0, 1, 0, 0,  0, 0, 0, 1, 0,
               0, 0, 0, 0, 0,  0, 1, 0, 0, 0,  1, 0, 0, 0, 0,  0, 0, 1, 0, 0]\<rparr>"


text \<open>
  A source of batch size 4, and a target of three dimensions whose columns hold
  four tokens each.
\<close>

definition wide_source :: "int tensor" where
  "wide_source = \<lparr>shape = [4, 1], elems = [7, 7, 7, 7]\<rparr>"

definition stacked_target :: "int tensor" where
  "stacked_target = \<lparr>shape = [2, 3, 2], elems = [0, 0, 1, 2, 3, 4, 0, 0, 4, 3, 2, 1]\<rparr>"


text \<open>
  A decoder with integer (int64) scores. The conversion of an integer to float32,
  the float32 value being written as the whole number it is: a number of at most
  24 bits is kept, a longer one is rounded to 24 significant bits, to the nearest
  one and to the even one of two nearest.
\<close>

fun bit_length :: "int \<Rightarrow> nat" where
  "bit_length n = (if n \<le> 0 then 0 else Suc (bit_length (n div 2)))"

declare bit_length.simps [simp del]

definition int64_to_float32 :: "int \<Rightarrow> int" where
  "int64_to_float32 x =
     (let a = \<bar>x\<bar>;
          e = bit_length a - 24;
          q = a div 2 ^ e;
          r = a mod 2 ^ e;
          q' = (if 2 ^ e < 2 * r \<or> (2 ^ e = 2 * r \<and> odd q) then q + 1 else q)
      in sgn x * (q' * 2 ^ e))"

definition int64_score_decoder :: "(int, int, nat, nat, string) Decoder" where
  "int64_score_decoder =
     \<lparr>fc_out_out_features = 2,
      to_float32 = int64_to_float32,
      decoder_call = (\<lambda>inp h c.
        Inr (\<lparr>shape = [2, 2], elems = [16777217, 3, - 16777219, 0]\<rparr>, h, c))\<rparr>"

definition int64_score_model :: "(int, int, nat, nat, string) SequenceToSequence" where
  "int64_score_model = \<lparr>encoder = (\<lambda>s. Inr (0, 0)), decoder = int64_score_decoder\<rparr>"


section \<open>Properties of the loop\<close>

lemma loop_body_InrE:
  fixes m :: "('a::linorder, 'b::zero, 'h, 'c, 'e) SequenceToSequence"
  assumes "loop_body m tgt tf B i st = Inr st'"
  obtains d h c out inp where
    "decoder_call (decoder m) (target_input st) (hidden_layer st) (cell_layer st) = Inr (d, h, c)"
    "(setitem_dim1 (to_float32 (decoder m)) (output_tensor st) i d :: 'e error + 'b tensor) = Inr out"
    "(if tf then target_column tgt B i else argmax_dim1 d :: 'e error + int tensor) = Inr inp"
    "st' = \<lparr>output_tensor = out, hidden_layer = h, cell_layer = c, target_input = inp,
           trace = trace st @ [DecoderCall (target_input st) (hidden_layer st) (cell_layer st),
                               OutputWrite i d]\<rparr>"
proof (cases "decoder_call (decoder m) (target_input st) (hidden_layer st) (cell_layer st)")
  case (Inl e)
  with assms show ?thesis by (simp add: loop_body_def)
next
  case (Inr r)
  obtain d h c where r: "r = (d, h, c)" by (cases r)
  note dec = Inr [unfolded r]
  show ?thesis
  proof (cases "setitem_dim1 (to_float32 (decoder m)) (output_tensor st) i d :: 'e error + 'b tensor")
    case (Inl e)
    with assms dec show ?thesis by (simp add: loop_body_def)
  next
    case out: (Inr out)
    show ?thesis
    proof (cases "if tf then target_column tgt B i else (argmax_dim1 d :: 'e error + int tensor)")
      case (Inl e)
      with assms dec out show ?thesis by (simp add: loop_body_def)
    next
      case (Inr inp)
      with assms dec out have "st' = \<lparr>output_tensor = out, hidden_layer = h, cell_layer = c,
           target_input = inp,
           trace = trace st @ [DecoderCall (target_input st) (hidden_layer st) (cell_layer st),
                               OutputWrite i d]\<rparr>"
        by (simp add: loop_body_def)
      with dec out Inr show ?thesis by (rule that)
    qed
  qed
qed

lemma loop_body_Inl_trace:
  assumes "loop_body m tgt tf B i st = Inl (tr, e)"
  shows "tr = trace st @ [DecoderCall (target_input st) (hidden_layer st) (cell_layer st)] \<or>
         (\<exists>d. tr = trace st @ [DecoderCall (target_input st) (hidden_layer st) (cell_layer st),
                               OutputWrite i d])"
  using assms
  by (auto simp: loop_body_def Let_def split: sum.splits prod.splits)

lemma encoder_calls_append: "encoder_calls (xs @ ys) = encoder_calls xs @ encoder_calls ys"
  by (induction xs rule: encoder_calls.induct) auto

lemma decoder_inputs_append: "decoder_inputs (xs @ ys) = decoder_inputs xs @ decoder_inputs ys"
  by (induction xs rule: decoder_inputs.induct) auto

lemma output_writes_append: "output_writes (xs @ ys) = output_writes xs @ output_writes ys"
  by (induction xs rule: output_writes.induct) auto

lemma decode_loop_trace_Inr:
  "decode_loop m tgt tf B is st = Inr st' \<Longrightarrow>
   \<exists>ev. trace st' = trace st @ ev \<and> encoder_calls ev = []"
proof (induction "is" arbitrary: st)
  case Nil
  then show ?case by simp
next
  case (Cons i "is")
  from Cons.prems obtain st1 where b: "loop_body m tgt tf B i st = Inr st1"
    and l: "decode_loop m tgt tf B is st1 = Inr st'"
    by (auto split: sum.splits)
  from b have "\<exists>ev. trace st1 = trace st @ ev \<and> encoder_calls ev = []"
    by (elim loop_body_InrE) simp
  moreover from Cons.IH [OF l] have "\<exists>ev. trace st' = trace st1 @ ev \<and> encoder_calls ev = []" .
  ultimately show ?case by (auto simp: encoder_calls_append)
qed

lemma decode_loop_trace_Inl:
  "decode_loop m tgt tf B is st = Inl (tr, e) \<Longrightarrow>
   \<exists>ev. tr = trace st @ ev \<and> encoder_calls ev = []"
proof (induction "is" arbitrary: st)
  case Nil
  then show ?case by simp
next
  case (Cons i "is")
  show ?case
  proof (cases "loop_body m tgt tf B i st")
    case (Inl x)
    with Cons.prems have "loop_body m tgt tf B i st = Inl (tr, e)" by simp
    from loop_body_Inl_trace [OF this] show ?thesis by auto
  next
    case (Inr st1)
    with Cons.prems have l: "decode_loop m tgt tf B is st1 = Inl (tr, e)" by simp
    from Inr have "\<exists>ev. trace st1 = trace st @ ev \<and> encoder_calls ev = []"
      by (elim loop_body_InrE) simp
    moreover from Cons.IH [OF l] have "\<exists>ev. tr = trace st1 @ ev \<and> encoder_calls ev = []" .
    ultimately show ?thesis by (auto simp: encoder_calls_append)
  qed
qed

lemma forward_start:
  assumes "shape src = B # ss" and "shape tgt = Bt # T # ts"
  shows "forward_body m src tgt tf =
     (case encoder m src of
        Inl e \<Rightarrow> ([EncoderCall src], Inl (Raised e))
      | Inr (h0, c0) \<Rightarrow>
     (case target_column tgt B 0 of
        Inl e \<Rightarrow> ([EncoderCall src], Inl e)
      | Inr inp0 \<Rightarrow>
     (case decode_loop m tgt tf B [1..<T]
             \<lparr>output_tensor = zeros [B, T, fc_out_out_features (decoder m)],
              hidden_layer = h0, cell_layer = c0,
              target_input = inp0, trace = [EncoderCall src]\<rparr> of
        Inl (tr, e) \<Rightarrow> (tr, Inl e)
      | Inr st \<Rightarrow> (trace st, Inr (output_tensor st)))))"
  using assms by (simp add: forward_body_def shape_at_def Let_def)


section \<open>Properties of \<open>forward\<close>\<close>

text \<open>
  C10: the argument \<open>teacher_forcing\<close> of \<open>forward\<close> is optional and defaults to
  \<open>True\<close>: a call that leaves it out is the call with \<open>teacher_forcing = True\<close>.
\<close>

theorem teacher_forcing_default:
  "forward m src tgt None = forward m src tgt (Some True)"
  by (simp add: forward_def)

text \<open>
  C6: whatever the length of the target, a call of \<open>forward\<close> on a source with one
  dimension at least and a target with two at least calls the encoder exactly once,
  on the source, and that call is the first thing it does: it comes before every
  call of the decoder and every write, and the loop never calls the encoder.
\<close>

theorem encoder_called_once:
  fixes m :: "('a::linorder, 'b::zero, 'h, 'c, 'e) SequenceToSequence"
  assumes "shape src \<noteq> []" and "2 \<le> length (shape tgt)"
  shows "encoder_calls (events (forward m src tgt tf)) = [src] \<and>
         take 1 (events (forward m src tgt tf)) = [EncoderCall src]"
proof -
  from assms(1) obtain B ss where s: "shape src = B # ss" by (cases "shape src") auto
  from assms(2) obtain Bt T ts where t: "shape tgt = Bt # T # ts"
    by (cases "shape tgt"; cases "tl (shape tgt)") auto
  define b where "b = (case tf of None \<Rightarrow> True | Some x \<Rightarrow> x)"
  show ?thesis
  proof (cases "encoder m src")
    case (Inl e)
    then show ?thesis by (simp add: forward_def forward_start [OF s t])
  next
    case (Inr hc)
    obtain h0 c0 where hc: "hc = (h0, c0)" by (cases hc)
    show ?thesis
    proof (cases "target_column tgt B 0 :: 'e error + int tensor")
      case (Inl e)
      with Inr hc show ?thesis by (simp add: forward_def forward_start [OF s t])
    next
      case inp: (Inr inp0)
      let ?st0 = "\<lparr>output_tensor = zeros [B, T, fc_out_out_features (decoder m)],
              hidden_layer = h0, cell_layer = c0,
              target_input = inp0, trace = [EncoderCall src]\<rparr>"
      show ?thesis
      proof (cases "decode_loop m tgt b B [1..<T] ?st0")
        case (Inl x)
        obtain tr e where x: "x = (tr, e)" by (cases x)
        from decode_loop_trace_Inl [OF Inl [unfolded x]]
        obtain ev where "tr = [EncoderCall src] @ ev" "encoder_calls ev = []" by auto
        with Inl x Inr hc inp show ?thesis
          by (simp add: forward_def forward_start [OF s t] b_def)
      next
        case (Inr st)
        from decode_loop_trace_Inr [OF Inr]
        obtain ev where "trace st = [EncoderCall src] @ ev" "encoder_calls ev = []" by auto
        with Inr \<open>encoder m src = Inr hc\<close> hc inp show ?thesis
          by (simp add: forward_def forward_start [OF s t] b_def)
      qed
    qed
  qed
qed

theorem encoder_called_once_witness:
  "encoder_calls (events (forward example_model example_source example_target (Some False)))
     = [example_source] \<and>
   take 1 (events (forward example_model example_source example_target (Some False)))
     = [EncoderCall example_source]"
proof -
  have 1: "shape example_source \<noteq> []" by (simp add: example_source_def)
  have 2: "2 \<le> length (shape example_target)" by (simp add: example_target_def)
  show ?thesis by (rule encoder_called_once [OF 1 2])
qed

text \<open>
  C5: when the target has one column, the source and the target have the same batch
  size and the encoder returns, \<open>forward\<close> returns a tensor of shape
  (batch size, 1, vocabulary size) whose elements are all 0, without any call of
  the decoder and without any write: the loop runs over the empty range.
\<close>

theorem length_one_target:
  fixes m :: "('a::linorder, 'b::zero, 'h, 'c, 'e) SequenceToSequence"
  assumes "shape src = B # ss" and "shape tgt = [B, 1]" and "encoder m src = Inr (h0, c0)"
  shows "outcome (forward m src tgt tf) =
           Inr \<lparr>shape = [B, 1, fc_out_out_features (decoder m)],
                elems = replicate (B * fc_out_out_features (decoder m)) 0\<rparr> \<and>
         decoder_inputs (events (forward m src tgt tf)) = [] \<and>
         output_writes (events (forward m src tgt tf)) = []"
proof -
  have col: "(target_column tgt B 0 :: 'e error + int tensor) =
      Inr \<lparr>shape = [B, 1], elems = map (\<lambda>k. elems tgt ! k) [0..<B]\<rparr>"
    using assms(2) by (simp add: target_column_def select_dim1_def reshape_def)
  show ?thesis
    using assms(3) col
    by (simp add: forward_def forward_start [OF assms(1) assms(2)] zeros_def)
qed

theorem length_one_target_witness:
  "outcome (forward example_model example_source \<lparr>shape = [2, 1], elems = [0, 0]\<rparr> None)
     = Inr \<lparr>shape = [2, 1, 3], elems = [0, 0, 0, 0, 0, 0]\<rparr> \<and>
   decoder_inputs (events (forward example_model example_source \<lparr>shape = [2, 1], elems = [0, 0]\<rparr> None)) = [] \<and>
   output_writes (events (forward example_model example_source \<lparr>shape = [2, 1], elems = [0, 0]\<rparr> None)) = []"
proof -
  have 1: "shape example_source = 2 # [2]" by (simp add: example_source_def)
  have 2: "shape \<lparr>shape = [2, 1], elems = [0, 0 :: int]\<rparr> = [2, 1]" by simp
  have 3: "encoder example_model example_source = Inr (0, 0)" by (simp add: example_model_def)
  have 4: "fc_out_out_features (decoder example_model) = 3"
    by (simp add: example_model_def example_decoder_def)
  have 5: "replicate (2 * 3) (0::int) = [0, 0, 0, 0, 0, 0]" by code_simp
  from length_one_target [OF 1 2 3, of None] show ?thesis by (simp only: 4 5)
qed

text \<open>
  C1, as amended: \<open>forward\<close> has no check of the batch sizes and no exception of its
  own. When the batch size of the source differs from that of a two-dimensional
  target, the call still never returns a tensor, and it ends before any call of the
  decoder and any write: it allocates the zero tensor, calls the encoder, and then
  fails on the first column of the target. The exception is the encoder's when
  the encoder raises, the \<open>IndexError\<close> of \<^verbatim>\<open>[:, 0]\<close> when the target has
  no column, and otherwise the \<open>RuntimeError\<close> of \<^verbatim>\<open>reshape\<close>, whose shape
  (batch size of the source, 1) does not hold the elements of the column.
\<close>

theorem batch_mismatch_fails:
  fixes m :: "('a::linorder, 'b::zero, 'h, 'c, 'e) SequenceToSequence"
  assumes "shape src = Bs # ss" and "shape tgt = [Bt, T]" and "Bs \<noteq> Bt"
  shows "forward m src tgt tf =
           ([EncoderCall src],
            Inl (case encoder m src of
                   Inl e \<Rightarrow> Raised e
                 | Inr hc \<Rightarrow> if T = 0 then IndexError else RuntimeError))"
proof -
  have col: "(target_column tgt Bs 0 :: 'e error + int tensor) =
      Inl (if T = 0 then IndexError else RuntimeError)"
    using assms(2,3) by (simp add: target_column_def select_dim1_def reshape_def)
  show ?thesis
    using col
    by (simp add: forward_def forward_start [OF assms(1) assms(2)] split: sum.splits prod.splits)
qed

theorem batch_mismatch_fails_witness:
  "forward example_model \<lparr>shape = [3, 1], elems = [5, 6, 7]\<rparr> example_target (Some True) =
     ([EncoderCall \<lparr>shape = [3, 1], elems = [5, 6, 7]\<rparr>], Inl RuntimeError)"
proof -
  have 1: "shape \<lparr>shape = [3, 1], elems = [5, 6, 7 :: int]\<rparr> = 3 # [1]" by simp
  have 2: "shape example_target = [2, 3]" by (simp add: example_target_def)
  have 3: "(3::nat) \<noteq> 2" by simp
  show ?thesis
    using batch_mismatch_fails [OF 1 2 3, of example_model "Some True"]
    by (simp add: example_model_def)
qed

text \<open>
  C1, as stated, fails: with a source of batch size 3 and a target of batch size 2,
  the call does not end with the shape error of \<^verbatim>\<open>reshape\<close> when the target has
  no column (it ends with \<open>IndexError\<close>), nor when the encoder raises (its exception
  comes first, since the encoder is called before the column is reshaped).
\<close>

theorem batch_mismatch_not_always_shape_error:
  "outcome (forward example_model \<lparr>shape = [3, 1], elems = [5, 6, 7]\<rparr>
              \<lparr>shape = [2, 0], elems = []\<rparr> (Some True)) = Inl IndexError \<and>
   forward failing_encoder_model \<lparr>shape = [3, 1], elems = [5, 6, 7]\<rparr> example_target (Some True) =
     ([EncoderCall \<lparr>shape = [3, 1], elems = [5, 6, 7]\<rparr>], Inl (Raised ''bad token''))"
  by (simp add: forward_def forward_body_def shape_at_def example_model_def failing_encoder_model_def
      example_target_def target_column_def select_dim1_def)

subsection \<open>The argmax of a row\<close>

lemma argmax_from_first_max:
  fixes best :: "'a::linorder"
  assumes "bi < length pre" and "pre ! bi = best"
    and "\<forall>j<length pre. pre ! j \<le> best" and "\<forall>j<bi. pre ! j < best"
  shows "argmax_from best bi (length pre) xs < length (pre @ xs) \<and>
         (\<forall>j<length (pre @ xs). (pre @ xs) ! j \<le> (pre @ xs) ! argmax_from best bi (length pre) xs) \<and>
         (\<forall>j<argmax_from best bi (length pre) xs.
            (pre @ xs) ! j < (pre @ xs) ! argmax_from best bi (length pre) xs)"
  using assms
proof (induction xs arbitrary: best bi pre)
  case Nil
  then show ?case by simp
next
  case (Cons x xs)
  let ?pre = "pre @ [x]"
  have app: "pre @ x # xs = ?pre @ xs" by simp
  have len: "Suc (length pre) = length ?pre" by simp
  show ?case
  proof (cases "best < x")
    case True
    have 1: "length pre < length ?pre" by simp
    have 2: "?pre ! length pre = x" by simp
    have 3: "\<forall>j<length ?pre. ?pre ! j \<le> x"
    proof (intro allI impI)
      fix j assume "j < length ?pre"
      then consider "j < length pre" | "j = length pre" by fastforce
      then show "?pre ! j \<le> x"
      proof cases
        case 1
        with Cons.prems(3) True show ?thesis by (auto simp: nth_append intro: less_imp_le order_trans)
      next
        case 2
        then show ?thesis by simp
      qed
    qed
    have 4: "\<forall>j<length pre. ?pre ! j < x"
      using Cons.prems(3) True by (auto simp: nth_append intro: le_less_trans)
    from True have eq: "argmax_from best bi (length pre) (x # xs) =
        argmax_from x (length pre) (length ?pre) xs" by simp
    from Cons.IH [OF 1 2 3 4] show ?thesis unfolding app eq .
  next
    case False
    have 1: "bi < length ?pre" using Cons.prems(1) by simp
    have 2: "?pre ! bi = best" using Cons.prems(1,2) by (simp add: nth_append)
    have 3: "\<forall>j<length ?pre. ?pre ! j \<le> best"
    proof (intro allI impI)
      fix j assume "j < length ?pre"
      then consider "j < length pre" | "j = length pre" by fastforce
      then show "?pre ! j \<le> best"
      proof cases
        case 1
        with Cons.prems(3) show ?thesis by (simp add: nth_append)
      next
        case 2
        with False show ?thesis by simp
      qed
    qed
    have 4: "\<forall>j<bi. ?pre ! j < best"
      using Cons.prems(1,4) by (simp add: nth_append)
    from False have eq: "argmax_from best bi (length pre) (x # xs) =
        argmax_from best bi (length ?pre) xs" by simp
    from Cons.IH [OF 1 2 3 4] show ?thesis unfolding app eq .
  qed
qed

lemma argmax_list_first_max:
  fixes xs :: "('a::linorder) list"
  assumes "xs \<noteq> []"
  shows "argmax_list xs < length xs \<and>
         (\<forall>j<length xs. xs ! j \<le> xs ! argmax_list xs) \<and>
         (\<forall>j<argmax_list xs. xs ! j < xs ! argmax_list xs)"
proof -
  from assms obtain x ys where xs: "xs = x # ys" by (cases xs) auto
  have "argmax_from x 0 (length [x]) ys < length ([x] @ ys) \<and>
         (\<forall>j<length ([x] @ ys). ([x] @ ys) ! j \<le> ([x] @ ys) ! argmax_from x 0 (length [x]) ys) \<and>
         (\<forall>j<argmax_from x 0 (length [x]) ys.
            ([x] @ ys) ! j < ([x] @ ys) ! argmax_from x 0 (length [x]) ys)"
    by (rule argmax_from_first_max) simp_all
  then show ?thesis by (simp add: xs argmax_list_def)
qed

text \<open>
  C2: without teacher forcing, the next input of the decoder is
  \<^verbatim>\<open>decoder_output.argmax(1)\<close> as it is. It holds the first index of the maximum
  of each row (\<open>argmax_list_first_max\<close>; here 1 for the scores 1, 5, 5 and 0 for
  7, 2, 7), but its shape is
  (batch size), not (batch size, 1): unlike the first input and the teacher-forced
  one, it is not reshaped. Here are the inputs of the two decoder calls of a call
  with batch size 2 and a target of length 3.
\<close>

theorem greedy_input_not_reshaped:
  "decoder_inputs (events (forward example_model example_source example_target (Some False))) =
     [\<lparr>shape = [2, 1], elems = [0, 0]\<rparr>, \<lparr>shape = [2], elems = [1, 0]\<rparr>]"
  by code_simp

section \<open>Reading and writing along the time axis\<close>

lemma idx_bound:
  fixes b :: nat
  assumes "b < d0" and "j < d1" and "r < n"
  shows "(b * d1 + j) * n + r < d0 * d1 * n"
proof -
  from assms(1) have "(b + 1) * d1 \<le> d0 * d1" by (intro mult_le_mono1) simp
  with assms(2) have "b * d1 + j + 1 \<le> d0 * d1" by simp
  then have "(b * d1 + j + 1) * n \<le> d0 * d1 * n" by (rule mult_le_mono1)
  moreover from assms(3) have "(b * d1 + j) * n + r < (b * d1 + j + 1) * n" by simp
  ultimately show ?thesis by linarith
qed

lemma idx_div_inner:
  fixes b :: nat
  assumes "r < n"
  shows "((b * d1 + j) * n + r) div n = b * d1 + j"
  using assms by simp

lemma idx_mod_inner:
  fixes b :: nat
  assumes "r < n"
  shows "((b * d1 + j) * n + r) mod n = r"
  using assms by simp

lemma div_block:
  fixes b :: nat
  assumes "q < c"
  shows "(b * c + q) div c = b"
  using assms by simp

lemma idx_div_outer:
  fixes b :: nat
  assumes "j < d1" and "r < n"
  shows "((b * d1 + j) * n + r) div (d1 * n) = b"
proof -
  from assms have "j * n + r < d1 * n"
    using idx_bound [of 0 1 j d1 r n] by simp
  then have "(b * (d1 * n) + (j * n + r)) div (d1 * n) = b" by (rule div_block)
  moreover have "(b * d1 + j) * n + r = b * (d1 * n) + (j * n + r)"
    by (simp add: algebra_simps)
  ultimately show ?thesis by (simp only:)
qed

lemma setitem_dim1_Inr:
  assumes "shape out = d0 # d1 # rest"
    and "(setitem_dim1 f out i v :: 'e error + 'b tensor) = Inr out'"
  shows "i < d1 \<and>
         (\<exists>av. (assigned_value f (d0 # rest) v :: 'e error + 'b tensor) = Inr av \<and>
            out' = out\<lparr>elems :=
                     map (\<lambda>k. if (k div prod_list rest) mod d1 = i
                               then elems av ! (k div (d1 * prod_list rest) * prod_list rest
                                                + k mod prod_list rest)
                               else elems out ! k)
                         [0..<d0 * d1 * prod_list rest]\<rparr>)"
  using assms by (simp add: setitem_dim1_def Let_def split: if_splits sum.splits)

lemma setitem_dim1_shape:
  assumes "(setitem_dim1 f out i v :: 'e error + 'b tensor) = Inr out'"
  shows "shape out' = shape out"
  using assms
  by (auto simp: setitem_dim1_def Let_def split: list.splits if_splits sum.splits)

lemma select_after_setitem:
  assumes sh: "shape out = d0 # d1 # rest"
    and set: "(setitem_dim1 f out i v :: 'e error + 'b tensor) = Inr out'"
    and bv: "(assigned_value f (d0 # rest) v :: 'e error + 'b tensor) = Inr bv"
    and j: "j < d1"
  shows "(select_dim1 out' j :: 'e2 error + 'b tensor) =
         (if j = i
          then Inr \<lparr>shape = d0 # rest, elems = map (\<lambda>k. elems bv ! k) [0..<d0 * prod_list rest]\<rparr>
          else select_dim1 out j)"
proof -
  let ?n = "prod_list rest"
  let ?f = "\<lambda>k. if (k div ?n) mod d1 = i
                 then elems bv ! (k div (d1 * ?n) * ?n + k mod ?n)
                 else elems out ! k"
  from setitem_dim1_Inr [OF sh set] bv
  have out': "out' = out\<lparr>elems := map ?f [0..<d0 * d1 * ?n]\<rparr>" by simp
  have el: "map ?f [0..<d0 * d1 * ?n] ! ((k div ?n * d1 + j) * ?n + k mod ?n) =
            (if j = i then elems bv ! k else elems out ! ((k div ?n * d1 + j) * ?n + k mod ?n))"
    if k: "k < d0 * ?n" for k
  proof -
    from k have n: "0 < ?n" by (cases "?n") auto
    then have r: "k mod ?n < ?n" by simp
    from k have b: "k div ?n < d0" by (simp add: less_mult_imp_div_less)
    let ?K = "(k div ?n * d1 + j) * ?n + k mod ?n"
    from idx_bound [OF b j r] have K: "?K < d0 * d1 * ?n" .
    have 1: "?K div ?n = k div ?n * d1 + j" using r by (rule idx_div_inner)
    have 2: "?K mod ?n = k mod ?n" using r by (rule idx_mod_inner)
    have 3: "?K div (d1 * ?n) = k div ?n" using j r by (rule idx_div_outer)
    have 4: "(k div ?n * d1 + j) mod d1 = j" using j by simp
    have "map ?f [0..<d0 * d1 * ?n] ! ?K = ?f ?K" using K by simp
    also have "\<dots> = (if j = i then elems bv ! (k div ?n * ?n + k mod ?n) else elems out ! ?K)"
      by (simp only: 1 2 3 4)
    finally show ?thesis by simp
  qed
  have "elems out' = map ?f [0..<d0 * d1 * ?n]" by (simp add: out')
  then have m: "map (\<lambda>k. elems out' ! ((k div ?n * d1 + j) * ?n + k mod ?n)) [0..<d0 * ?n] =
        map (\<lambda>k. if j = i then elems bv ! k
                  else elems out ! ((k div ?n * d1 + j) * ?n + k mod ?n)) [0..<d0 * ?n]"
    using el by (intro map_cong [OF refl]) simp
  have sh': "shape out' = d0 # d1 # rest" using sh by (simp add: out')
  have "(select_dim1 out' j :: 'e2 error + 'b tensor) =
        Inr \<lparr>shape = d0 # rest,
             elems = map (\<lambda>k. elems out' ! ((k div ?n * d1 + j) * ?n + k mod ?n)) [0..<d0 * ?n]\<rparr>"
    using sh' j by (simp add: select_dim1_def Let_def)
  also have "\<dots> = (if j = i
          then Inr \<lparr>shape = d0 # rest, elems = map (\<lambda>k. elems bv ! k) [0..<d0 * ?n]\<rparr>
          else select_dim1 out j)"
    unfolding m using sh j by (simp add: select_dim1_def Let_def)
  finally show ?thesis .
qed

subsection \<open>Position 0 of the time axis\<close>

lemma setitem_select_other:
  assumes "(setitem_dim1 f out i v :: 'e error + 'b tensor) = Inr out'" and "j \<noteq> i"
  shows "(select_dim1 out' j :: 'e2 error + 'b tensor) = select_dim1 out j"
proof -
  from assms(1) obtain d0 d1 rest where sh: "shape out = d0 # d1 # rest"
    by (auto simp: setitem_dim1_def split: list.splits)
  from setitem_dim1_Inr [OF sh assms(1)] obtain bv where
    bv: "(assigned_value f (d0 # rest) v :: 'e error + 'b tensor) = Inr bv" by blast
  show ?thesis
  proof (cases "j < d1")
    case True
    from select_after_setitem [OF sh assms(1) bv True] assms(2) show ?thesis by simp
  next
    case False
    moreover have "shape out' = d0 # d1 # rest"
      using setitem_dim1_shape [OF assms(1)] sh by simp
    ultimately show ?thesis using sh by (simp add: select_dim1_def)
  qed
qed

lemma decode_loop_shape:
  fixes m :: "('a::linorder, 'b::zero, 'h, 'c, 'e) SequenceToSequence"
  shows "decode_loop m tgt tf B is st = Inr st' \<Longrightarrow>
         shape (output_tensor st') = shape (output_tensor st)"
proof (induction "is" arbitrary: st)
  case Nil
  then show ?case by simp
next
  case (Cons i "is")
  from Cons.prems obtain st1 where b: "loop_body m tgt tf B i st = Inr st1"
    and l: "decode_loop m tgt tf B is st1 = Inr st'"
    by (auto split: sum.splits)
  from b have "shape (output_tensor st1) = shape (output_tensor st)"
    by (elim loop_body_InrE) (simp add: setitem_dim1_shape)
  with Cons.IH [OF l] show ?case by simp
qed

lemma decode_loop_select_other:
  fixes m :: "('a::linorder, 'b::zero, 'h, 'c, 'e) SequenceToSequence"
  shows "decode_loop m tgt tf B is st = Inr st' \<Longrightarrow> j \<notin> set is \<Longrightarrow>
         (select_dim1 (output_tensor st') j :: 'e2 error + 'b tensor) =
         select_dim1 (output_tensor st) j"
proof (induction "is" arbitrary: st)
  case Nil
  then show ?case by simp
next
  case (Cons i "is")
  from Cons.prems obtain st1 where b: "loop_body m tgt tf B i st = Inr st1"
    and l: "decode_loop m tgt tf B is st1 = Inr st'"
    by (auto split: sum.splits)
  from Cons.prems(2) have ji: "j \<noteq> i" and jis: "j \<notin> set is" by auto
  from b ji have "(select_dim1 (output_tensor st1) j :: 'e2 error + 'b tensor) =
      select_dim1 (output_tensor st) j"
    by (elim loop_body_InrE) (simp add: setitem_select_other)
  with Cons.IH [OF l jis] show ?case by simp
qed

lemma select_zeros:
  assumes "j < T"
  shows "(select_dim1 (zeros [B, T, V]) j :: 'e error + ('a::zero) tensor) =
         Inr \<lparr>shape = [B, V], elems = replicate (B * V) 0\<rparr>"
proof -
  have "replicate (B * (T * V)) (0::'a) ! ((k div V * T + j) * V + k mod V) = 0"
    if k: "k < B * V" for k
  proof -
    from k have v: "0 < V" by (cases V) auto
    then have r: "k mod V < V" by simp
    from k have b: "k div V < B" by (simp add: less_mult_imp_div_less)
    from idx_bound [OF b assms r] show ?thesis by (simp add: mult.assoc)
  qed
  then have "map (\<lambda>k. replicate (B * (T * V)) (0::'a) ! ((k div V * T + j) * V + k mod V)) [0..<B * V]
             = map (\<lambda>k. 0) [0..<B * V]"
    by (intro map_cong [OF refl]) simp
  also have "\<dots> = replicate (B * V) 0" by (simp add: map_replicate_const)
  finally show ?thesis using assms by (simp add: select_dim1_def zeros_def)
qed

lemma target_column_Inr_nonempty:
  assumes "shape tgt = Bt # T # ts" and "(target_column tgt B j :: 'e error + int tensor) = Inr x"
  shows "j < T"
  using assms by (auto simp: target_column_def select_dim1_def Let_def split: if_splits)

lemma forward_InrE:
  fixes m :: "('a::linorder, 'b::zero, 'h, 'c, 'e) SequenceToSequence"
  assumes "outcome (forward m src tgt tf) = Inr buf"
  obtains B ss Bt T ts h0 c0 inp0 st where
    "shape src = B # ss" "shape tgt = Bt # T # ts" "0 < T"
    "encoder m src = Inr (h0, c0)"
    "(target_column tgt B 0 :: 'e error + int tensor) = Inr inp0"
    "decode_loop m tgt (case tf of None \<Rightarrow> True | Some b \<Rightarrow> b) B [1..<T]
       \<lparr>output_tensor = zeros [B, T, fc_out_out_features (decoder m)],
        hidden_layer = h0, cell_layer = c0, target_input = inp0,
        trace = [EncoderCall src]\<rparr> = Inr st"
    "buf = output_tensor st" "events (forward m src tgt tf) = trace st"
proof -
  define b where "b = (case tf of None \<Rightarrow> True | Some x \<Rightarrow> x)"
  have f: "forward m src tgt tf = forward_body m src tgt b" by (simp add: forward_def b_def)
  from assms obtain B ss where s: "shape src = B # ss"
    by (cases "shape src") (auto simp: forward_def forward_body_def shape_at_def)
  from assms s obtain Bt T ts where t: "shape tgt = Bt # T # ts"
    by (cases "shape tgt"; cases "tl (shape tgt)")
       (auto simp: forward_def forward_body_def shape_at_def)
  note fs = forward_start [OF s t, of m b]
  from assms obtain hc where e: "encoder m src = Inr hc"
    by (cases "encoder m src") (auto simp: f fs)
  obtain h0 c0 where hc: "hc = (h0, c0)" by (cases hc)
  from assms e hc obtain inp0 where c: "(target_column tgt B 0 :: 'e error + int tensor) = Inr inp0"
    by (cases "target_column tgt B 0 :: 'e error + int tensor") (auto simp: f fs)
  let ?st0 = "\<lparr>output_tensor = zeros [B, T, fc_out_out_features (decoder m)],
        hidden_layer = h0, cell_layer = c0, target_input = inp0,
        trace = [EncoderCall src]\<rparr>"
  from assms e hc c obtain st where l: "decode_loop m tgt b B [1..<T] ?st0 = Inr st"
    by (cases "decode_loop m tgt b B [1..<T] ?st0") (auto simp: f fs)
  from assms e hc c l have "buf = output_tensor st" "events (forward m src tgt tf) = trace st"
    by (auto simp: f fs)
  moreover from target_column_Inr_nonempty [OF t c] have "0 < T" .
  ultimately show ?thesis using s t e hc c l that unfolding b_def by blast
qed

text \<open>
  C4: in the tensor a call of \<open>forward\<close> returns, position 0 of the time axis is all
  zero: \<^verbatim>\<open>output[:, 0]\<close> has the shape (batch size, vocabulary size) and all its
  elements are 0. The loop writes at the indices of
  \<^verbatim>\<open>range(1, target_sentence_length)\<close> only, and a write at another index leaves
  position 0 as it is.
\<close>

theorem first_position_zero:
  fixes m :: "('a::linorder, 'b::zero, 'h, 'c, 'e) SequenceToSequence"
  assumes "outcome (forward m src tgt tf) = Inr buf"
  shows "(select_dim1 buf 0 :: 'e2 error + 'b tensor) =
           Inr \<lparr>shape = [shape src ! 0, fc_out_out_features (decoder m)],
                elems = replicate (shape src ! 0 * fc_out_out_features (decoder m)) 0\<rparr>"
proof -
  from assms obtain B ss Bt T ts h0 c0 inp0 st where
    s: "shape src = B # ss" and T: "0 < T"
    and l: "decode_loop m tgt (case tf of None \<Rightarrow> True | Some b \<Rightarrow> b) B [1..<T]
       \<lparr>output_tensor = zeros [B, T, fc_out_out_features (decoder m)],
        hidden_layer = h0, cell_layer = c0, target_input = inp0,
        trace = [EncoderCall src]\<rparr> = Inr st"
    and buf: "buf = output_tensor st"
    by (rule forward_InrE)
  have "(0::nat) \<notin> set [1..<T]" by simp
  from decode_loop_select_other [OF l this]
  have "(select_dim1 buf 0 :: 'e2 error + 'b tensor) =
        select_dim1 (zeros [B, T, fc_out_out_features (decoder m)]) 0"
    by (simp add: buf)
  with T s show ?thesis by (simp add: select_zeros)
qed

theorem first_position_zero_witness:
  "outcome (forward example_model example_source example_target (Some False)) =
     Inr \<lparr>shape = [2, 3, 3], elems = [0, 0, 0, 1, 5, 5, 1, 5, 5, 0, 0, 0, 7, 2, 7, 7, 2, 7]\<rparr> \<and>
   (select_dim1 \<lparr>shape = [2, 3, 3], elems = [0, 0, 0, 1, 5, 5, 1, 5, 5, 0, 0, 0, 7, 2, 7, 7, 2, 7 :: int]\<rparr> 0
      :: unit error + int tensor) = Inr \<lparr>shape = [2, 3], elems = [0, 0, 0, 0, 0, 0]\<rparr>"
proof -
  have 1: "outcome (forward example_model example_source example_target (Some False)) =
     Inr \<lparr>shape = [2, 3, 3], elems = [0, 0, 0, 1, 5, 5, 1, 5, 5, 0, 0, 0, 7, 2, 7, 7, 2, 7]\<rparr>"
    by code_simp
  have 2: "shape example_source ! 0 = 2" by (simp add: example_source_def)
  have 3: "fc_out_out_features (decoder example_model) = 3"
    by (simp add: example_model_def example_decoder_def)
  have 4: "replicate (2 * 3) (0::int) = [0, 0, 0, 0, 0, 0]" by code_simp
  from first_position_zero [OF 1, where ?'e2.0 = unit] show ?thesis by (simp only: 1 2 3 4 simp_thms)
qed

subsection \<open>The shape of the result\<close>

lemma pad_dropWhile_ones:
  fixes xs :: "nat list"
  shows "replicate (length xs - length (dropWhile (\<lambda>d. d = 1) xs)) 1 @ dropWhile (\<lambda>d. d = 1) xs = xs"
proof (induction xs)
  case Nil
  then show ?case by simp
next
  case (Cons x xs)
  have "length (dropWhile (\<lambda>d. d = 1) xs) \<le> length xs" by (rule length_dropWhile_le)
  then have "Suc (length xs) - length (dropWhile (\<lambda>d. d = 1) xs) =
             Suc (length xs - length (dropWhile (\<lambda>d. d = 1) xs))"
    by (rule Suc_diff_le)
  with Cons show ?case by simp
qed

lemma broadcast_value_same_shape:
  assumes "shape v = dst"
  shows "(broadcast_value dst v :: 'e error + 'a tensor) =
         Inr \<lparr>shape = dst, elems = expand_elems dst dst (elems v)\<rparr>"
proof -
  have "list_all2 (\<lambda>a d. a = d \<or> a = 1) dst dst" by (simp add: list_all2_same)
  moreover have "length (dropWhile (\<lambda>d. d = 1) dst) \<le> length dst" by (rule length_dropWhile_le)
  ultimately show ?thesis
    using pad_dropWhile_ones [of dst] assms by (simp add: broadcast_value_def Let_def)
qed

lemma assigned_value_same_shape:
  assumes "shape v = dst"
  shows "(assigned_value f dst v :: 'e error + 'b tensor) =
         Inr \<lparr>shape = dst, elems = map f (expand_elems dst dst (elems v))\<rparr>"
  using broadcast_value_same_shape [OF assms, where ?'e = 'e]
  by (simp add: assigned_value_def convert_tensor_def)

lemma setitem_dim1_succeeds:
  assumes "shape out = [B, T, V]" and "i < T" and "shape v = [B, V]"
  shows "\<exists>out'. (setitem_dim1 f out i v :: 'e error + 'b tensor) = Inr out'"
  using assms assigned_value_same_shape [of v "[B, V]" f, where ?'e = 'e]
  by (simp add: setitem_dim1_def Let_def)

lemma setitem_dim1_wf:
  assumes "(setitem_dim1 f out i v :: 'e error + 'b tensor) = Inr out'"
  shows "wf_tensor out'"
proof -
  from assms obtain d0 d1 rest where sh: "shape out = d0 # d1 # rest"
    by (auto simp: setitem_dim1_def split: list.splits)
  from setitem_dim1_Inr [OF sh assms] sh show ?thesis
    by (auto simp: wf_tensor_def)
qed

lemma target_column_succeeds:
  assumes "shape tgt = Bt # T # ts" and "Bt * prod_list ts = B" and "j < T"
  shows "\<exists>x. (target_column tgt B j :: 'e error + int tensor) = Inr x"
  using assms by (simp add: target_column_def select_dim1_def reshape_def Let_def)

lemma argmax_dim1_succeeds:
  fixes d :: "('a::linorder) tensor"
  assumes "shape d = [B, V]" and "0 < V"
  shows "\<exists>x. (argmax_dim1 d :: 'e error + int tensor) = Inr x \<and>
             shape x = [B] \<and> length (elems x) = B \<and> (\<forall>e\<in>set (elems x). 0 \<le> e \<and> e < int V)"
proof -
  let ?row = "\<lambda>k. map (\<lambda>j. elems d ! ((k div 1 * V + j) * 1 + k mod 1)) [0..<V]"
  let ?x = "\<lparr>shape = [B], elems = map (\<lambda>k. int (argmax_list (?row k))) [0..<B * 1]\<rparr>"
  have "argmax_list (?row k) < V" for k
  proof -
    from assms(2) have "?row k \<noteq> []" by simp
    from argmax_list_first_max [OF this] show ?thesis by simp
  qed
  then have "\<forall>e\<in>set (elems ?x). 0 \<le> e \<and> e < int V" by auto
  moreover have "(argmax_dim1 d :: 'e error + int tensor) = Inr ?x"
    using assms by (simp add: argmax_dim1_def)
  ultimately show ?thesis by (intro exI [of _ ?x]) simp
qed

lemma decode_loop_teacher_succeeds:
  fixes m :: "('a::linorder, 'b::zero, 'h, 'c, 'e) SequenceToSequence"
  assumes dec: "\<And>t x h c. t < T - 1 \<Longrightarrow> (target_column tgt B t :: 'e error + int tensor) = Inr x \<Longrightarrow>
                  \<exists>d h' c'. decoder_call (decoder m) x h c = Inr (d, h', c') \<and> shape d = [B, V]"
    and tgt: "shape tgt = Bt # T # ts"
    and bt: "Bt * prod_list ts = B"
  shows "0 < k \<Longrightarrow> k \<le> T \<Longrightarrow>
         (target_column tgt B (k - 1) :: 'e error + int tensor) = Inr (target_input st) \<Longrightarrow>
         shape (output_tensor st) = [B, T, V] \<Longrightarrow>
         \<exists>st'. decode_loop m tgt True B [k..<T] st = Inr st'"
proof (induction "T - k" arbitrary: k st)
  case 0
  then show ?case by simp
next
  case (Suc n)
  from Suc.hyps(2) have kT: "k < T" by simp
  then have up: "[k..<T] = k # [Suc k..<T]" by (rule upt_conv_Cons)
  from Suc.prems(1) kT have "k - 1 < T - 1" by simp
  from dec [OF this Suc.prems(3)] obtain d h' c' where
    d: "decoder_call (decoder m) (target_input st) (hidden_layer st) (cell_layer st) = Inr (d, h', c')"
    and sd: "shape d = [B, V]" by blast
  from setitem_dim1_succeeds [OF Suc.prems(4) kT sd] obtain out' where
    s: "(setitem_dim1 (to_float32 (decoder m)) (output_tensor st) k d :: 'e error + 'b tensor) = Inr out'"
    by blast
  from target_column_succeeds [OF tgt bt kT] obtain inp where
    c: "(target_column tgt B k :: 'e error + int tensor) = Inr inp" by blast
  let ?st1 = "\<lparr>output_tensor = out', hidden_layer = h', cell_layer = c', target_input = inp,
      trace = trace st @ [DecoderCall (target_input st) (hidden_layer st) (cell_layer st),
                          OutputWrite k d]\<rparr>"
  have b: "loop_body m tgt True B k st = Inr ?st1" using d s c by (simp add: loop_body_def)
  have "\<exists>st'. decode_loop m tgt True B [Suc k..<T] ?st1 = Inr st'"
  proof (rule Suc.hyps(1))
    show "n = T - Suc k" using Suc.hyps(2) by simp
    show "0 < Suc k" by simp
    show "Suc k \<le> T" using kT by simp
    show "(target_column tgt B (Suc k - 1) :: 'e error + int tensor) = Inr (target_input ?st1)"
      using c by simp
    show "shape (output_tensor ?st1) = [B, T, V]"
      using setitem_dim1_shape [OF s] Suc.prems(4) by simp
  qed
  with b show ?case by (simp add: up)
qed

lemma decode_loop_greedy_succeeds:
  fixes m :: "('a::linorder, 'b::zero, 'h, 'c, 'e) SequenceToSequence"
  assumes dec: "\<And>x h c. x = inp0 \<or> (shape x = [B] \<and> length (elems x) = B \<and>
                              (\<forall>e\<in>set (elems x). 0 \<le> e \<and> e < int V)) \<Longrightarrow>
                  \<exists>d h' c'. decoder_call (decoder m) x h c = Inr (d, h', c') \<and> shape d = [B, V]"
    and V: "0 < V"
  shows "target_input st = inp0 \<or> (shape (target_input st) = [B] \<and> length (elems (target_input st)) = B \<and>
                              (\<forall>e\<in>set (elems (target_input st)). 0 \<le> e \<and> e < int V)) \<Longrightarrow>
         shape (output_tensor st) = [B, T, V] \<Longrightarrow> \<forall>i\<in>set is. i < T \<Longrightarrow>
         \<exists>st'. decode_loop m tgt False B is st = Inr st'"
proof (induction "is" arbitrary: st)
  case Nil
  then show ?case by simp
next
  case (Cons i "is")
  from Cons.prems(3) have iT: "i < T" by simp
  from dec [OF Cons.prems(1)] obtain d h' c' where
    d: "decoder_call (decoder m) (target_input st) (hidden_layer st) (cell_layer st) = Inr (d, h', c')"
    and sd: "shape d = [B, V]" by blast
  from setitem_dim1_succeeds [OF Cons.prems(2) iT sd] obtain out' where
    s: "(setitem_dim1 (to_float32 (decoder m)) (output_tensor st) i d :: 'e error + 'b tensor) = Inr out'"
    by blast
  from argmax_dim1_succeeds [OF sd V, where ?'e = 'e] obtain inp where
    a: "(argmax_dim1 d :: 'e error + int tensor) = Inr inp"
    and g: "shape inp = [B] \<and> length (elems inp) = B \<and> (\<forall>e\<in>set (elems inp). 0 \<le> e \<and> e < int V)"
    by blast
  let ?st1 = "\<lparr>output_tensor = out', hidden_layer = h', cell_layer = c', target_input = inp,
      trace = trace st @ [DecoderCall (target_input st) (hidden_layer st) (cell_layer st),
                          OutputWrite i d]\<rparr>"
  have b: "loop_body m tgt False B i st = Inr ?st1" using d s a by (simp add: loop_body_def)
  have "\<exists>st'. decode_loop m tgt False B is ?st1 = Inr st'"
  proof (rule Cons.IH)
    show "target_input ?st1 = inp0 \<or> (shape (target_input ?st1) = [B] \<and>
            length (elems (target_input ?st1)) = B \<and>
            (\<forall>e\<in>set (elems (target_input ?st1)). 0 \<le> e \<and> e < int V))"
      using g by simp
    show "shape (output_tensor ?st1) = [B, T, V]"
      using setitem_dim1_shape [OF s] Cons.prems(2) by simp
    show "\<forall>i\<in>set is. i < T" using Cons.prems(3) by simp
  qed
  with b show ?case by simp
qed

lemma target_column_Inr_general:
  assumes "shape tgt = Bt # T # ts" and "(target_column tgt B j :: 'e error + int tensor) = Inr x"
  shows "shape x = [B, 1] \<and> length (elems x) = B \<and> Bt * prod_list ts = B \<and> j < T"
  using assms
  by (auto simp: target_column_def select_dim1_def reshape_def Let_def split: if_splits)

lemma decode_loop_wf:
  fixes m :: "('a::linorder, 'b::zero, 'h, 'c, 'e) SequenceToSequence"
  shows "decode_loop m tgt tf B is st = Inr st' \<Longrightarrow> wf_tensor (output_tensor st) \<Longrightarrow>
         wf_tensor (output_tensor st')"
proof (induction "is" arbitrary: st)
  case Nil
  then show ?case by simp
next
  case (Cons i "is")
  from Cons.prems obtain st1 where b: "loop_body m tgt tf B i st = Inr st1"
    and l: "decode_loop m tgt tf B is st1 = Inr st'"
    by (auto split: sum.splits)
  from b have "wf_tensor (output_tensor st1)"
    by (elim loop_body_InrE) (simp add: setitem_dim1_wf)
  with Cons.IH [OF l] show ?case by simp
qed

lemma forward_returns_shape:
  fixes m :: "('a::linorder, 'b::zero, 'h, 'c, 'e) SequenceToSequence"
  assumes "outcome (forward m src tgt tf) = Inr buf"
  shows "shape buf = [shape src ! 0, shape tgt ! 1, fc_out_out_features (decoder m)] \<and>
         length (elems buf) = shape src ! 0 * shape tgt ! 1 * fc_out_out_features (decoder m)"
proof -
  from assms obtain B ss Bt T ts h0 c0 inp0 st where
    s: "shape src = B # ss" and t: "shape tgt = Bt # T # ts"
    and l: "decode_loop m tgt (case tf of None \<Rightarrow> True | Some b \<Rightarrow> b) B [1..<T]
       \<lparr>output_tensor = zeros [B, T, fc_out_out_features (decoder m)],
        hidden_layer = h0, cell_layer = c0, target_input = inp0,
        trace = [EncoderCall src]\<rparr> = Inr st"
    and buf: "buf = output_tensor st"
    by (rule forward_InrE)
  have "wf_tensor (zeros [B, T, fc_out_out_features (decoder m)] :: 'b tensor)"
    by (simp add: zeros_def wf_tensor_def)
  with decode_loop_shape [OF l] decode_loop_wf [OF l] s t buf
  show ?thesis by (simp add: zeros_def wf_tensor_def mult.assoc)
qed

text \<open>
  C3: let the source have the batch size \<open>B\<close> (its first dimension) and the target
  the length \<open>T \<ge> 1\<close> (its second dimension), let each column of the target hold
  \<open>B\<close> tokens (for a two-dimensional target: its batch size is \<open>B\<close> too), let
  the encoder return on the source, and let the decoder return scores of shape
  (\<open>B\<close>, \<open>V\<close>) on the inputs \<open>forward\<close> feeds it, where \<open>V\<close> is the decoder's
  \<^verbatim>\<open>fc_out.out_features\<close>. Then \<open>forward\<close> returns a tensor of shape exactly
  (\<open>B\<close>, \<open>T\<close>, \<open>V\<close>), with that many elements. The inputs \<open>forward\<close> feeds are,
  with teacher forcing, the columns of the target before the last one, reshaped to
  (\<open>B\<close>, 1); without teacher forcing they are the first column reshaped to
  (\<open>B\<close>, 1) and then vectors of \<open>B\<close> indices below \<open>V\<close>, of shape (\<open>B\<close>), which
  the decoder must accept for the call to return; the vocabulary must then not be
  empty, since the argmax of an empty row raises. The batch size of the result is
  read from the source, the length from the target, the width from the decoder.
\<close>

theorem output_shape:
  fixes m :: "('a::linorder, 'b::zero, 'h, 'c, 'e) SequenceToSequence"
  assumes src: "shape src = B # ss"
    and tgt: "shape tgt = Bt # T # ts"
    and bt: "Bt * prod_list ts = B"
    and T: "1 \<le> T"
    and enc: "encoder m src = Inr (h0, c0)"
    and dec: "\<forall>x h c.
        (if tf = Some False
         then (target_column tgt B 0 :: 'e error + int tensor) = Inr x \<or>
              (shape x = [B] \<and> length (elems x) = B \<and>
               (\<forall>e\<in>set (elems x). 0 \<le> e \<and> e < int (fc_out_out_features (decoder m))))
         else (\<exists>t<T - 1. (target_column tgt B t :: 'e error + int tensor) = Inr x)) \<longrightarrow>
        (\<exists>d h' c'. decoder_call (decoder m) x h c = Inr (d, h', c') \<and>
                    shape d = [B, fc_out_out_features (decoder m)])"
    and v: "tf = Some False \<longrightarrow> 0 < fc_out_out_features (decoder m)"
  shows "\<exists>buf. outcome (forward m src tgt tf) = Inr buf \<and>
           shape buf = [B, T, fc_out_out_features (decoder m)] \<and>
           length (elems buf) = B * T * fc_out_out_features (decoder m)"
proof -
  let ?V = "fc_out_out_features (decoder m)"
  define b where "b = (case tf of None \<Rightarrow> True | Some x \<Rightarrow> x)"
  from T have T0: "0 < T" by simp
  from target_column_succeeds [OF tgt bt T0] obtain inp0 where
    col: "(target_column tgt B 0 :: 'e error + int tensor) = Inr inp0" by blast
  let ?st0 = "\<lparr>output_tensor = zeros [B, T, ?V], hidden_layer = h0, cell_layer = c0,
               target_input = inp0, trace = [EncoderCall src] :: ('a, 'h, 'c) event list\<rparr>"
  have sh0: "shape (output_tensor ?st0) = [B, T, ?V]" by (simp add: zeros_def)
  have "\<exists>st'. decode_loop m tgt b B [1..<T] ?st0 = Inr st'"
  proof (cases "tf = Some False")
    case True
    then have b: "b = False" by (simp add: b_def)
    from True v have V: "0 < ?V" by simp
    have "\<exists>st'. decode_loop m tgt False B [1..<T] ?st0 = Inr st'"
    proof (rule decode_loop_greedy_succeeds [where ?inp0.0 = inp0 and V = "?V" and T = T])
      show "\<exists>d h' c'. decoder_call (decoder m) x h c = Inr (d, h', c') \<and> shape d = [B, ?V]"
        if "x = inp0 \<or> (shape x = [B] \<and> length (elems x) = B \<and>
                          (\<forall>e\<in>set (elems x). 0 \<le> e \<and> e < int ?V))" for x h c
        using that dec True col by auto
      show "0 < ?V" by (rule V)
      show "target_input ?st0 = inp0 \<or> (shape (target_input ?st0) = [B] \<and>
              length (elems (target_input ?st0)) = B \<and>
              (\<forall>e\<in>set (elems (target_input ?st0)). 0 \<le> e \<and> e < int ?V))" by simp
      show "shape (output_tensor ?st0) = [B, T, ?V]" by (rule sh0)
      show "\<forall>i\<in>set [1..<T]. i < T" by simp
    qed
    then show ?thesis by (simp add: b)
  next
    case False
    then have b: "b = True" by (cases tf) (auto simp: b_def)
    have "\<exists>st'. decode_loop m tgt True B [1..<T] ?st0 = Inr st'"
    proof (rule decode_loop_teacher_succeeds [where V = "?V" and Bt = Bt and ts = ts])
      show "\<exists>d h' c'. decoder_call (decoder m) x h c = Inr (d, h', c') \<and> shape d = [B, ?V]"
        if "t < T - 1" and "(target_column tgt B t :: 'e error + int tensor) = Inr x" for t x h c
        using that dec False by auto
      show "shape tgt = Bt # T # ts" by (rule tgt)
      show "Bt * prod_list ts = B" by (rule bt)
      show "0 < (1::nat)" by simp
      show "1 \<le> T" by (rule T)
      show "(target_column tgt B (1 - 1) :: 'e error + int tensor) = Inr (target_input ?st0)"
        using col by simp
      show "shape (output_tensor ?st0) = [B, T, ?V]" by (rule sh0)
    qed
    then show ?thesis by (simp add: b)
  qed
  then obtain st' where l: "decode_loop m tgt b B [1..<T] ?st0 = Inr st'" ..
  have r: "outcome (forward m src tgt tf) = Inr (output_tensor st')"
    using enc col l by (simp add: forward_def forward_start [OF src tgt] b_def)
  from forward_returns_shape [OF r] src tgt r show ?thesis by simp
qed

theorem output_shape_witness:
  "(\<exists>buf. outcome (forward column_only_model scenario_source scenario_target None) = Inr buf \<and>
      shape buf = [2, 4, 5] \<and> length (elems buf) = 2 * 4 * 5) \<and>
   (\<exists>buf. outcome (forward next_token_model wide_source stacked_target (Some False)) = Inr buf \<and>
      shape buf = [4, 3, 5] \<and> length (elems buf) = 4 * 3 * 5)"
proof -
  have V: "fc_out_out_features (decoder column_only_model) = 5"
    "fc_out_out_features (decoder next_token_model) = 5"
    by (simp_all add: column_only_model_def column_only_decoder_def next_token_model_def
        next_token_decoder_def)
  have a1: "shape scenario_source = 2 # [3]" by (simp add: scenario_source_def)
  have a2: "shape scenario_target = 2 # 4 # []" by (simp add: scenario_target_def)
  have a3: "2 * prod_list ([] :: nat list) = 2" by simp
  have a4: "(1::nat) \<le> 4" by simp
  have a5: "encoder column_only_model scenario_source = Inr (0, 0)"
    by (simp add: column_only_model_def)
  have a6: "\<forall>x h c.
        (if (None :: bool option) = Some False
         then (target_column scenario_target 2 0 :: string error + int tensor) = Inr x \<or>
              (shape x = [2] \<and> length (elems x) = 2 \<and>
               (\<forall>e\<in>set (elems x). 0 \<le> e \<and> e < int (fc_out_out_features (decoder column_only_model))))
         else (\<exists>t<4 - 1. (target_column scenario_target 2 t :: string error + int tensor) = Inr x)) \<longrightarrow>
        (\<exists>d h' c'. decoder_call (decoder column_only_model) x h c = Inr (d, h', c') \<and>
                    shape d = [2, fc_out_out_features (decoder column_only_model)])"
  proof (intro allI impI)
    fix x h c
    assume "if (None :: bool option) = Some False
         then (target_column scenario_target 2 0 :: string error + int tensor) = Inr x \<or>
              (shape x = [2] \<and> length (elems x) = 2 \<and>
               (\<forall>e\<in>set (elems x). 0 \<le> e \<and> e < int (fc_out_out_features (decoder column_only_model))))
         else (\<exists>t<4 - 1. (target_column scenario_target 2 t :: string error + int tensor) = Inr x)"
    then obtain t where "(target_column scenario_target 2 t :: string error + int tensor) = Inr x"
      by auto
    from target_column_Inr_general [OF a2 this]
    have "shape x = [2, 1]" and "length (elems x) = 2" by simp_all
    then show "\<exists>d h' c'. decoder_call (decoder column_only_model) x h c = Inr (d, h', c') \<and>
                    shape d = [2, fc_out_out_features (decoder column_only_model)]"
      by (simp add: column_only_model_def column_only_decoder_def next_token_decoder_def)
  qed
  have a7: "(None :: bool option) = Some False \<longrightarrow>
            0 < fc_out_out_features (decoder column_only_model)" by simp
  have b1: "shape wide_source = 4 # [1]" by (simp add: wide_source_def)
  have b2: "shape stacked_target = 2 # 3 # [2]" by (simp add: stacked_target_def)
  have b3: "2 * prod_list [2::nat] = 4" by simp
  have b4: "(1::nat) \<le> 3" by simp
  have b5: "encoder next_token_model wide_source = Inr (0, 0)"
    by (simp add: next_token_model_def)
  have b6: "\<forall>x h c.
        (if Some False = Some False
         then (target_column stacked_target 4 0 :: string error + int tensor) = Inr x \<or>
              (shape x = [4] \<and> length (elems x) = 4 \<and>
               (\<forall>e\<in>set (elems x). 0 \<le> e \<and> e < int (fc_out_out_features (decoder next_token_model))))
         else (\<exists>t<3 - 1. (target_column stacked_target 4 t :: string error + int tensor) = Inr x)) \<longrightarrow>
        (\<exists>d h' c'. decoder_call (decoder next_token_model) x h c = Inr (d, h', c') \<and>
                    shape d = [4, fc_out_out_features (decoder next_token_model)])"
  proof (intro allI impI)
    fix x h c
    assume "if Some False = Some False
         then (target_column stacked_target 4 0 :: string error + int tensor) = Inr x \<or>
              (shape x = [4] \<and> length (elems x) = 4 \<and>
               (\<forall>e\<in>set (elems x). 0 \<le> e \<and> e < int (fc_out_out_features (decoder next_token_model))))
         else (\<exists>t<3 - 1. (target_column stacked_target 4 t :: string error + int tensor) = Inr x)"
    then have "(target_column stacked_target 4 0 :: string error + int tensor) = Inr x \<or>
               length (elems x) = 4" by auto
    with target_column_Inr_general [OF b2, of 4 0 x, where ?'e = string]
    have "length (elems x) = 4" by auto
    then show "\<exists>d h' c'. decoder_call (decoder next_token_model) x h c = Inr (d, h', c') \<and>
                    shape d = [4, fc_out_out_features (decoder next_token_model)]"
      by (simp add: next_token_model_def next_token_decoder_def)
  qed
  have b7: "Some False = Some False \<longrightarrow> 0 < fc_out_out_features (decoder next_token_model)"
    by (simp add: V)
  from output_shape [OF a1 a2 a3 a4 a5 a6 a7] output_shape [OF b1 b2 b3 b4 b5 b6 b7]
  show ?thesis by (simp only: V)
qed

subsection \<open>Teacher forcing\<close>

lemma target_column_Inr:
  assumes "shape tgt = [Bt, T]" and "(target_column tgt B j :: 'e error + int tensor) = Inr x"
  shows "x = \<lparr>shape = [B, 1], elems = map (\<lambda>b. elems tgt ! (b * T + j)) [0..<B]\<rparr> \<and>
         Bt = B \<and> j < T"
  using assms
  by (auto simp: target_column_def select_dim1_def reshape_def Let_def split: if_splits)

lemma decode_loop_teacher_inputs:
  fixes m :: "('a::linorder, 'b::zero, 'h, 'c, 'e) SequenceToSequence"
  assumes tgt: "shape tgt = [Bt, T]"
  shows "decode_loop m tgt True B is st = Inr st' \<Longrightarrow>
         decoder_inputs (trace st') =
         decoder_inputs (trace st) @
         take (length is)
           (target_input st #
            map (\<lambda>t. \<lparr>shape = [B, 1], elems = map (\<lambda>b. elems tgt ! (b * T + t)) [0..<B]\<rparr>) is)"
proof (induction "is" arbitrary: st)
  case Nil
  then show ?case by simp
next
  case (Cons i "is")
  let ?col = "\<lambda>t. \<lparr>shape = [B, 1], elems = map (\<lambda>b. elems tgt ! (b * T + t)) [0..<B]\<rparr>"
  from Cons.prems obtain st1 where b: "loop_body m tgt True B i st = Inr st1"
    and l: "decode_loop m tgt True B is st1 = Inr st'"
    by (auto split: sum.splits)
  from b have 1: "decoder_inputs (trace st1) = decoder_inputs (trace st) @ [target_input st]"
    and 2: "target_input st1 = ?col i"
    using target_column_Inr [OF tgt, where ?'e = 'e]
    by (elim loop_body_InrE; simp add: decoder_inputs_append)+
  from Cons.IH [OF l] show ?case by (simp add: 1 2)
qed

text \<open>
  C7: with teacher forcing (asked for, or by default) and a two-dimensional target,
  the inputs of the decoder calls of a call of \<open>forward\<close> that returns are the
  columns 0, 1, ... of the target, each reshaped to (batch size, 1): after step
  \<open>t\<close> the input of the next call is column \<open>t\<close>, whatever the decoder
  returned. The flag is an argument of the call: the same branch is taken at every
  step.
\<close>

theorem teacher_forcing_inputs:
  fixes m :: "('a::linorder, 'b::zero, 'h, 'c, 'e) SequenceToSequence"
  assumes ret: "outcome (forward m src tgt tf) = Inr buf"
    and tf: "tf \<noteq> Some False"
    and tgt: "shape tgt = [B, T]"
  shows "decoder_inputs (events (forward m src tgt tf)) =
           map (\<lambda>t. \<lparr>shape = [B, 1], elems = map (\<lambda>b. elems tgt ! (b * T + t)) [0..<B]\<rparr>)
               [0..<T - 1]"
proof -
  let ?col = "\<lambda>t. \<lparr>shape = [B, 1], elems = map (\<lambda>b. elems tgt ! (b * T + t)) [0..<B]\<rparr>"
  from tf have b: "(case tf of None \<Rightarrow> True | Some b \<Rightarrow> b) = True"
    by (cases tf) auto
  from ret obtain B' ss Bt T' ts h0 c0 inp0 st where
    t: "shape tgt = Bt # T' # ts" and T: "0 < T'"
    and c: "(target_column tgt B' 0 :: 'e error + int tensor) = Inr inp0"
    and l: "decode_loop m tgt (case tf of None \<Rightarrow> True | Some b \<Rightarrow> b) B' [1..<T']
       \<lparr>output_tensor = zeros [B', T', fc_out_out_features (decoder m)],
        hidden_layer = h0, cell_layer = c0, target_input = inp0,
        trace = [EncoderCall src]\<rparr> = Inr st"
    and ev: "events (forward m src tgt tf) = trace st"
    by (rule forward_InrE)
  from t tgt have T': "T' = T" by simp
  from target_column_Inr [OF tgt c] have B': "B' = B" and inp0: "inp0 = ?col 0" by simp_all
  from T T' have up: "0 # [1..<T] = [0..<T]" by (simp add: upt_conv_Cons)
  from decode_loop_teacher_inputs [OF tgt l [unfolded b]]
  have "decoder_inputs (trace st) = take (T - 1) (?col 0 # map ?col [1..<T])"
    by (simp add: B' T' inp0)
  also have "?col 0 # map ?col [1..<T] = map ?col [0..<T]"
    unfolding up [symmetric] by simp
  also have "take (T - 1) (map ?col [0..<T]) = map ?col [0..<T - 1]"
    by (simp add: take_map)
  finally show ?thesis by (simp add: ev)
qed

theorem teacher_forcing_inputs_witness:
  "decoder_inputs (events (forward next_token_model scenario_source scenario_target None)) =
     [\<lparr>shape = [2, 1], elems = [0, 0]\<rparr>, \<lparr>shape = [2, 1], elems = [1, 4]\<rparr>,
      \<lparr>shape = [2, 1], elems = [2, 1]\<rparr>]"
proof -
  have 1: "outcome (forward next_token_model scenario_source scenario_target None) =
     Inr \<lparr>shape = [2, 4, 5],
          elems = [0, 0, 0, 0, 0, 0, 1, 0, 0, 0, 0, 0, 1, 0, 0, 0, 0, 0, 1, 0,
                   0, 0, 0, 0, 0, 0, 1, 0, 0, 0, 1, 0, 0, 0, 0, 0, 0, 1, 0, 0]\<rparr>"
    by code_simp
  have 2: "(None :: bool option) \<noteq> Some False" by simp
  have 3: "shape scenario_target = [2, 4]" by (simp add: scenario_target_def)
  have 4: "elems scenario_target = [0, 1, 2, 3, 0, 4, 1, 2]" by (simp add: scenario_target_def)
  have 5: "map (\<lambda>t. \<lparr>shape = [2, 1],
                     elems = map (\<lambda>b. [0, 1, 2, 3, 0, 4, 1, 2 :: int] ! (b * 4 + t)) [0..<2]\<rparr>)
               [0..<4 - 1] =
     [\<lparr>shape = [2, 1], elems = [0, 0]\<rparr>, \<lparr>shape = [2, 1], elems = [1, 4]\<rparr>,
      \<lparr>shape = [2, 1], elems = [2, 1]\<rparr>]"
    by code_simp
  from teacher_forcing_inputs [OF 1 2 3] show ?thesis by (simp only: 4 5)
qed

subsection \<open>Broadcasting a well-formed value\<close>

lemma concat_chunks:
  "concat (map (\<lambda>k. take n (drop (k * n) xs)) [0..<d]) = take (d * n) xs"
proof (induction d)
  case 0
  then show ?case by simp
next
  case (Suc d)
  have "take (d * n + n) xs = take (d * n) xs @ take n (drop (d * n) xs)"
    by (rule take_add)
  with Suc show ?case by (simp add: add.commute)
qed

lemma chunk_length:
  fixes k :: nat
  assumes "length xs = s * n" and "k < s"
  shows "length (take n (drop (k * n) xs)) = n"
proof -
  from assms(2) have "(k + 1) * n \<le> s * n" by (intro mult_le_mono1) simp
  then have "n \<le> s * n - k * n" by simp
  with assms(1) show ?thesis by simp
qed

lemma expand_elems_same:
  "length xs = prod_list s \<Longrightarrow> expand_elems s s xs = xs"
proof (induction s arbitrary: xs)
  case Nil
  then show ?case by simp
next
  case (Cons d ds)
  let ?n = "prod_list ds"
  from Cons.prems have len: "length xs = d * ?n" by simp
  have "expand_elems ds ds (take ?n (drop ((if d = 1 then 0 else k) * ?n) xs)) =
        take ?n (drop (k * ?n) xs)" if "k < d" for k
  proof -
    from that have k: "(if d = 1 then 0 else k) = k" by auto
    from chunk_length [OF len that] show ?thesis unfolding k by (rule Cons.IH)
  qed
  then have "map (\<lambda>k. expand_elems ds ds (take ?n (drop ((if d = 1 then 0 else k) * ?n) xs))) [0..<d] =
             map (\<lambda>k. take ?n (drop (k * ?n) xs)) [0..<d]"
    by (intro map_cong [OF refl]) (simp del: One_nat_def)
  then have "expand_elems (d # ds) (d # ds) xs =
             concat (map (\<lambda>k. take ?n (drop (k * ?n) xs)) [0..<d])"
    by (simp only: expand_elems.simps)
  also have "\<dots> = take (d * ?n) xs" by (rule concat_chunks)
  finally show ?case using len by simp
qed

lemma length_expand_elems:
  "list_all2 (\<lambda>a d. a = d \<or> a = 1) src dst \<Longrightarrow> length xs = prod_list src \<Longrightarrow>
   length (expand_elems src dst xs) = prod_list dst"
proof (induction src dst arbitrary: xs rule: list_all2_induct)
  case Nil
  then show ?case by simp
next
  case (Cons s ss d ds)
  let ?n = "prod_list ss"
  let ?f = "\<lambda>k. expand_elems ss ds (take ?n (drop ((if s = 1 then 0 else k) * ?n) xs))"
  from Cons.prems have len: "length xs = s * ?n" by simp
  have "length (?f k) = prod_list ds" if "k < d" for k
  proof -
    from that Cons.hyps(1) have "(if s = 1 then 0 else k) < s" by auto
    from chunk_length [OF len this] show ?thesis by (rule Cons.IH)
  qed
  then have "map (\<lambda>k. length (?f k)) [0..<d] = map (\<lambda>k. prod_list ds) [0..<d]"
    by (intro map_cong [OF refl]) (simp del: One_nat_def)
  moreover have "length (concat (map ?f [0..<d])) = sum_list (map (\<lambda>k. length (?f k)) [0..<d])"
    by (simp only: length_concat map_map comp_def)
  ultimately have "length (concat (map ?f [0..<d])) = sum_list (map (\<lambda>k. prod_list ds) [0..<d])"
    by (simp only:)
  also have "\<dots> = d * prod_list ds" by (simp add: sum_list_triv)
  finally show ?case by (simp only: expand_elems.simps prod_list.Cons)
qed

lemma prod_list_dropWhile_ones:
  fixes xs :: "nat list"
  shows "prod_list (dropWhile (\<lambda>d. d = 1) xs) = prod_list xs"
  by (induction xs) auto

lemma broadcast_value_wf:
  assumes "wf_tensor v" and "(broadcast_value dst v :: 'e error + 'a tensor) = Inr bv"
  shows "wf_tensor bv \<and> shape bv = dst"
proof -
  let ?s = "dropWhile (\<lambda>d. d = 1) (shape v)"
  let ?p = "replicate (length dst - length ?s) 1 @ ?s"
  from assms(2) have a: "list_all2 (\<lambda>a d. a = d \<or> a = 1) ?p dst"
    and bv: "bv = \<lparr>shape = dst, elems = expand_elems ?p dst (elems v)\<rparr>"
    by (auto simp: broadcast_value_def Let_def split: if_splits)
  have "prod_list ?p = prod_list (replicate (length dst - length ?s) 1) * prod_list ?s"
    by (rule prod_list.append)
  also have "prod_list (replicate (length dst - length ?s) (1::nat)) = 1"
    by (induction "length dst - length ?s") (simp_all del: One_nat_def)
  also have "prod_list ?s = prod_list (shape v)" by (rule prod_list_dropWhile_ones)
  finally have "prod_list ?p = prod_list (shape v)" by (simp del: One_nat_def)
  with assms(1) have "length (elems v) = prod_list ?p"
    by (simp only: wf_tensor_def)
  from length_expand_elems [OF a this] show ?thesis by (simp add: bv wf_tensor_def)
qed

lemma broadcast_value_error_type:
  assumes "(broadcast_value dst v :: 'e error + 'a tensor) = Inr bv"
  shows "(broadcast_value dst v :: 'e2 error + 'a tensor) = Inr bv"
  using assms by (auto simp: broadcast_value_def Let_def split: if_splits)

lemma broadcast_value_id:
  assumes "wf_tensor v" and "shape v = dst"
  shows "(broadcast_value dst v :: 'e error + 'a tensor) = Inr v"
  using assms broadcast_value_same_shape [OF assms(2), where ?'e = 'e]
  by (simp add: wf_tensor_def expand_elems_same)

lemma assigned_value_wf:
  assumes "wf_tensor v" and "(assigned_value f dst v :: 'e error + 'b tensor) = Inr av"
  shows "wf_tensor av \<and> shape av = dst"
proof -
  from assms(2) obtain bv where bv: "(broadcast_value dst v :: 'e error + 'a tensor) = Inr bv"
    and av: "av = convert_tensor f bv"
    by (auto simp: assigned_value_def split: sum.splits)
  from broadcast_value_wf [OF assms(1) bv] show ?thesis
    by (simp add: av convert_tensor_def wf_tensor_def)
qed

lemma assigned_value_error_type:
  assumes "(assigned_value f dst v :: 'e error + 'b tensor) = Inr av"
  shows "(assigned_value f dst v :: 'e2 error + 'b tensor) = Inr av"
proof -
  from assms obtain bv where bv: "(broadcast_value dst v :: 'e error + 'a tensor) = Inr bv"
    and av: "av = convert_tensor f bv"
    by (auto simp: assigned_value_def split: sum.splits)
  from broadcast_value_error_type [OF bv, where ?'e2.0 = 'e2] av show ?thesis
    by (simp add: assigned_value_def)
qed

lemma assigned_value_id:
  assumes "wf_tensor v" and "shape v = dst"
  shows "(assigned_value f dst v :: 'e error + 'b tensor) =
         Inr \<lparr>shape = dst, elems = map f (elems v)\<rparr>"
  using assms broadcast_value_id [OF assms, where ?'e = 'e]
  by (simp add: assigned_value_def convert_tensor_def)

lemma select_written:
  assumes sh: "shape out = [B, T, V]"
    and set: "(setitem_dim1 f out i v :: 'e error + 'b tensor) = Inr out'"
    and wf: "wf_tensor v"
  shows "(select_dim1 out' i :: 'e2 error + 'b tensor) = assigned_value f [B, V] v"
proof -
  from setitem_dim1_Inr [OF sh set] obtain av where i: "i < T"
    and av: "(assigned_value f [B, V] v :: 'e error + 'b tensor) = Inr av" by blast
  from assigned_value_wf [OF wf av] have len: "length (elems av) = B * V"
    and sav: "shape av = [B, V]" by (simp_all add: wf_tensor_def)
  have "map (\<lambda>k. elems av ! k) [0..<B * V] = elems av"
    unfolding len [symmetric] by (rule map_nth)
  with select_after_setitem [OF sh set av i, where ?'e2.0 = 'e2] sav
  have "(select_dim1 out' i :: 'e2 error + 'b tensor) = Inr av" by simp
  with assigned_value_error_type [OF av, where ?'e2.0 = 'e2] show ?thesis by simp
qed

subsection \<open>The writes of the loop\<close>

lemma decoder_calls_append: "decoder_calls (xs @ ys) = decoder_calls xs @ decoder_calls ys"
  by (induction xs rule: decoder_calls.induct) auto

lemma decode_loop_writes:
  fixes m :: "('a::linorder, 'b::zero, 'h, 'c, 'e) SequenceToSequence"
  assumes sh: "shape (output_tensor st) = [B, T, V]"
    and run: "decode_loop m tgt tf B' is st = Inr st'"
    and dist: "distinct is"
  shows "\<exists>cs ws.
           decoder_calls (trace st') = decoder_calls (trace st) @ cs \<and>
           output_writes (trace st') = output_writes (trace st) @ ws \<and>
           map fst ws = is \<and>
           list_all2 (\<lambda>(x, h, c) (i, d). \<exists>h' c'. decoder_call (decoder m) x h c = Inr (d, h', c'))
             cs ws \<and>
           (\<forall>(i, d) \<in> set ws. wf_tensor d \<longrightarrow>
              (select_dim1 (output_tensor st') i :: 'e2 error + 'b tensor) =
                assigned_value (to_float32 (decoder m)) [B, V] d)"
  using sh run dist
proof (induction "is" arbitrary: st)
  case Nil
  then show ?case by simp
next
  case (Cons i "is")
  from Cons.prems(2) obtain st1 where b: "loop_body m tgt tf B' i st = Inr st1"
    and l: "decode_loop m tgt tf B' is st1 = Inr st'"
    by (auto split: sum.splits)
  from Cons.prems(3) have i: "i \<notin> set is" and dist: "distinct is" by simp_all
  from b obtain d h c out inp where
    dec: "decoder_call (decoder m) (target_input st) (hidden_layer st) (cell_layer st) = Inr (d, h, c)"
    and set: "(setitem_dim1 (to_float32 (decoder m)) (output_tensor st) i d :: 'e error + 'b tensor) = Inr out"
    and st1: "st1 = \<lparr>output_tensor = out, hidden_layer = h, cell_layer = c, target_input = inp,
           trace = trace st @ [DecoderCall (target_input st) (hidden_layer st) (cell_layer st),
                               OutputWrite i d]\<rparr>"
    by (rule loop_body_InrE)
  from setitem_dim1_shape [OF set] Cons.prems(1) st1
  have sh1: "shape (output_tensor st1) = [B, T, V]" by simp
  from Cons.IH [OF sh1 l dist] obtain cs ws where
    c1: "decoder_calls (trace st') = decoder_calls (trace st1) @ cs"
    and w1: "output_writes (trace st') = output_writes (trace st1) @ ws"
    and ix: "map fst ws = is"
    and rel: "list_all2 (\<lambda>(x, h, c) (i, d). \<exists>h' c'. decoder_call (decoder m) x h c = Inr (d, h', c'))
             cs ws"
    and sel: "\<forall>(i, d) \<in> set ws. wf_tensor d \<longrightarrow>
              (select_dim1 (output_tensor st') i :: 'e2 error + 'b tensor) =
                assigned_value (to_float32 (decoder m)) [B, V] d"
    by blast
  let ?cs = "(target_input st, hidden_layer st, cell_layer st) # cs"
  let ?ws = "(i, d) # ws"
  have A: "decoder_calls (trace st') = decoder_calls (trace st) @ ?cs"
    by (simp add: c1 st1 decoder_calls_append)
  have B: "output_writes (trace st') = output_writes (trace st) @ ?ws"
    by (simp add: w1 st1 output_writes_append)
  have C: "map fst ?ws = i # is" by (simp add: ix)
  have D: "list_all2 (\<lambda>(x, h, c) (i, d). \<exists>h' c'. decoder_call (decoder m) x h c = Inr (d, h', c'))
             ?cs ?ws"
    using rel dec by simp
  have E: "\<forall>(i, d) \<in> set ?ws. wf_tensor d \<longrightarrow>
              (select_dim1 (output_tensor st') i :: 'e2 error + 'b tensor) =
                assigned_value (to_float32 (decoder m)) [B, V] d"
  proof -
    have "(select_dim1 (output_tensor st') i :: 'e2 error + 'b tensor) =
                assigned_value (to_float32 (decoder m)) [B, V] d"
      if wf: "wf_tensor d"
    proof -
      from decode_loop_select_other [OF l i]
      have "(select_dim1 (output_tensor st') i :: 'e2 error + 'b tensor) = select_dim1 out i"
        by (simp add: st1)
      with select_written [OF Cons.prems(1) set wf, where ?'e2.0 = 'e2] show ?thesis by simp
    qed
    with sel show ?thesis by simp
  qed
  show ?case
  proof (intro exI conjI)
    show "decoder_calls (trace st') = decoder_calls (trace st) @ ?cs" by (rule A)
    show "output_writes (trace st') = output_writes (trace st) @ ?ws" by (rule B)
    show "map fst ?ws = i # is" by (rule C)
    show "list_all2 (\<lambda>(x, h, c) (i, d). \<exists>h' c'. decoder_call (decoder m) x h c = Inr (d, h', c'))
             ?cs ?ws" by (rule D)
    show "\<forall>(i, d) \<in> set ?ws. wf_tensor d \<longrightarrow>
              (select_dim1 (output_tensor st') i :: 'e2 error + 'b tensor) =
                assigned_value (to_float32 (decoder m)) [B, V] d"
      by (rule E)
  qed
qed

text \<open>
  C9: in a call of \<open>forward\<close> that returns, the writes into the output tensor are
  at the time indices 1, 2, ..., target length - 1, in that order and once each.
  The value of each write is what the decoder returned at the call made just before
  it, and the returned tensor still holds what the assignment stored at that time
  index: for a well-formed value, \<^verbatim>\<open>output[:, i]\<close> of the result is the value
  broadcast to (batch size, vocabulary size) and converted to the element type of
  the output; when the value has that shape, these are its own elements, converted.
\<close>

theorem writes_once_in_order:
  fixes m :: "('a::linorder, 'b::zero, 'h, 'c, 'e) SequenceToSequence"
  assumes ret: "outcome (forward m src tgt tf) = Inr buf"
  shows "map fst (output_writes (events (forward m src tgt tf))) = [1..<shape tgt ! 1] \<and>
         list_all2 (\<lambda>(x, h, c) (i, d). \<exists>h' c'. decoder_call (decoder m) x h c = Inr (d, h', c'))
           (decoder_calls (events (forward m src tgt tf)))
           (output_writes (events (forward m src tgt tf))) \<and>
         (\<forall>(i, d) \<in> set (output_writes (events (forward m src tgt tf))).
            wf_tensor d \<longrightarrow>
              (select_dim1 buf i :: 'e2 error + 'b tensor) =
                assigned_value (to_float32 (decoder m))
                  [shape src ! 0, fc_out_out_features (decoder m)] d \<and>
              (shape d = [shape src ! 0, fc_out_out_features (decoder m)] \<longrightarrow>
                 (select_dim1 buf i :: 'e2 error + 'b tensor) =
                   Inr \<lparr>shape = [shape src ! 0, fc_out_out_features (decoder m)],
                        elems = map (to_float32 (decoder m)) (elems d)\<rparr>))"
proof -
  let ?V = "fc_out_out_features (decoder m)"
  let ?f = "to_float32 (decoder m)"
  from ret obtain B ss Bt T ts h0 c0 inp0 st where
    s: "shape src = B # ss" and t: "shape tgt = Bt # T # ts"
    and l: "decode_loop m tgt (case tf of None \<Rightarrow> True | Some b \<Rightarrow> b) B [1..<T]
       \<lparr>output_tensor = zeros [B, T, ?V],
        hidden_layer = h0, cell_layer = c0, target_input = inp0,
        trace = [EncoderCall src]\<rparr> = Inr st"
    and buf: "buf = output_tensor st"
    and ev: "events (forward m src tgt tf) = trace st"
    by (rule forward_InrE)
  let ?st0 = "\<lparr>output_tensor = zeros [B, T, ?V] :: 'b tensor,
        hidden_layer = h0, cell_layer = c0, target_input = inp0,
        trace = [EncoderCall src] :: ('a, 'h, 'c) event list\<rparr>"
  have sh0: "shape (output_tensor ?st0) = [B, T, ?V]" by (simp add: zeros_def)
  have dist: "distinct [1..<T]" by simp
  from decode_loop_writes [OF sh0 l dist, where ?'e2.0 = 'e2] obtain cs ws where
    c: "decoder_calls (trace st) = cs" and w: "output_writes (trace st) = ws"
    and ix: "map fst ws = [1..<T]"
    and rel: "list_all2 (\<lambda>(x, h, c) (i, d). \<exists>h' c'. decoder_call (decoder m) x h c = Inr (d, h', c'))
             cs ws"
    and sel: "\<forall>(i, d) \<in> set ws. wf_tensor d \<longrightarrow>
              (select_dim1 (output_tensor st) i :: 'e2 error + 'b tensor) =
                assigned_value (to_float32 (decoder m)) [B, ?V] d"
    by auto
  have "\<forall>(i, d) \<in> set ws. wf_tensor d \<longrightarrow>
          (select_dim1 buf i :: 'e2 error + 'b tensor) = assigned_value ?f [B, ?V] d \<and>
          (shape d = [B, ?V] \<longrightarrow>
             (select_dim1 buf i :: 'e2 error + 'b tensor) =
               Inr \<lparr>shape = [B, ?V], elems = map ?f (elems d)\<rparr>)"
    using sel by (auto simp: buf assigned_value_id)
  with ix rel show ?thesis by (simp add: ev c w s t)
qed

theorem writes_once_in_order_witness:
  "map fst (output_writes (events (forward next_token_model scenario_source scenario_target None)))
     = [1, 2, 3] \<and>
   (select_dim1 scenario_output 1 :: unit error + int tensor) =
     Inr \<lparr>shape = [2, 5], elems = [0, 1, 0, 0, 0, 0, 1, 0, 0, 0]\<rparr> \<and>
   (select_dim1 scenario_output 2 :: unit error + int tensor) =
     Inr \<lparr>shape = [2, 5], elems = [0, 0, 1, 0, 0, 1, 0, 0, 0, 0]\<rparr> \<and>
   (select_dim1 scenario_output 3 :: unit error + int tensor) =
     Inr \<lparr>shape = [2, 5], elems = [0, 0, 0, 1, 0, 0, 0, 1, 0, 0]\<rparr>"
proof -
  have 1: "outcome (forward next_token_model scenario_source scenario_target None) =
             Inr scenario_output"
    by code_simp
  have 2: "output_writes (events (forward next_token_model scenario_source scenario_target None)) =
      [(1, \<lparr>shape = [2, 5], elems = [0, 1, 0, 0, 0, 0, 1, 0, 0, 0]\<rparr>),
       (2, \<lparr>shape = [2, 5], elems = [0, 0, 1, 0, 0, 1, 0, 0, 0, 0]\<rparr>),
       (3, \<lparr>shape = [2, 5], elems = [0, 0, 0, 1, 0, 0, 0, 1, 0, 0]\<rparr>)]"
    by code_simp
  have 3: "shape scenario_source ! 0 = 2" "fc_out_out_features (decoder next_token_model) = 5"
    "shape scenario_target ! 1 = 4" "to_float32 (decoder next_token_model) = (\<lambda>x. x)"
    by (simp_all add: scenario_source_def scenario_target_def next_token_model_def
        next_token_decoder_def)
  have 4: "[1..<4] = [1, 2, 3::nat]" by code_simp
  have 5: "(assigned_value (\<lambda>x. x) [2, 5] \<lparr>shape = [2, 5], elems = [0, 1, 0, 0, 0, 0, 1, 0, 0, 0 :: int]\<rparr>
              :: unit error + int tensor) =
           Inr \<lparr>shape = [2, 5], elems = [0, 1, 0, 0, 0, 0, 1, 0, 0, 0]\<rparr>"
    "(assigned_value (\<lambda>x. x) [2, 5] \<lparr>shape = [2, 5], elems = [0, 0, 1, 0, 0, 1, 0, 0, 0, 0 :: int]\<rparr>
              :: unit error + int tensor) =
           Inr \<lparr>shape = [2, 5], elems = [0, 0, 1, 0, 0, 1, 0, 0, 0, 0]\<rparr>"
    "(assigned_value (\<lambda>x. x) [2, 5] \<lparr>shape = [2, 5], elems = [0, 0, 0, 1, 0, 0, 0, 1, 0, 0 :: int]\<rparr>
              :: unit error + int tensor) =
           Inr \<lparr>shape = [2, 5], elems = [0, 0, 0, 1, 0, 0, 0, 1, 0, 0]\<rparr>"
    by code_simp+
  from writes_once_in_order [OF 1, where ?'e2.0 = unit]
  show ?thesis unfolding 2 3 4 by (simp add: wf_tensor_def 5)
qed

text \<open>
  The conversion at work: the integer scores 16777217 and -16777219 are not float32
  values, and the output holds 16777216 and -16777220 in their place.
\<close>

lemma int64_scores_are_converted:
  "forward int64_score_model example_source \<lparr>shape = [2, 2], elems = [0, 1, 0, 1]\<rparr> (Some True) =
     ([EncoderCall example_source,
       DecoderCall \<lparr>shape = [2, 1], elems = [0, 0]\<rparr> 0 0,
       OutputWrite 1 \<lparr>shape = [2, 2], elems = [16777217, 3, - 16777219, 0]\<rparr>],
      Inr \<lparr>shape = [2, 2, 2], elems = [0, 0, 16777216, 3, 0, 0, - 16777220, 0]\<rparr>)"
  by code_simp

subsection \<open>Teacher forcing and the decoder's predictions\<close>

lemma target_column_shape:
  assumes "(target_column tgt B j :: 'e error + int tensor) = Inr x"
  shows "shape x = [B, 1]"
  using assms
  by (auto simp: target_column_def reshape_def split: sum.splits if_splits)

lemma decode_loop_agree:
  fixes m1 m2 :: "('a::linorder, 'b::zero, 'h, 'c, 'e) SequenceToSequence"
  assumes dec: "\<And>t x h c. (target_column tgt B t :: 'e error + int tensor) = Inr x \<Longrightarrow>
                  decoder_call (decoder m1) x h c = decoder_call (decoder m2) x h c"
    and conv: "to_float32 (decoder m1) = to_float32 (decoder m2)"
  shows "(target_column tgt B t0 :: 'e error + int tensor) = Inr (target_input st) \<Longrightarrow>
         decode_loop m1 tgt True B is st = decode_loop m2 tgt True B is st"
proof (induction "is" arbitrary: st t0)
  case Nil
  then show ?case by simp
next
  case (Cons i "is")
  from dec [OF Cons.prems]
  have "decoder_call (decoder m1) (target_input st) (hidden_layer st) (cell_layer st) =
        decoder_call (decoder m2) (target_input st) (hidden_layer st) (cell_layer st)" .
  then have body: "loop_body m1 tgt True B i st = loop_body m2 tgt True B i st"
    unfolding loop_body_def conv by simp
  show ?case
  proof (cases "loop_body m1 tgt True B i st")
    case (Inl x)
    moreover from Inl body have "loop_body m2 tgt True B i st = Inl x" by simp
    ultimately show ?thesis by simp
  next
    case (Inr st1)
    then have "(target_column tgt B i :: 'e error + int tensor) = Inr (target_input st1)"
      by (elim loop_body_InrE) simp
    from Cons.IH [OF this]
    have "decode_loop m1 tgt True B is st1 = decode_loop m2 tgt True B is st1" .
    moreover from Inr body have "loop_body m2 tgt True B i st = Inr st1" by simp
    ultimately show ?thesis using Inr by simp
  qed
qed

text \<open>
  C8: the encoder and the decoder of the model are functions, so a call of
  \<open>forward\<close> is determined by the model, the source and the target. With teacher
  forcing it is determined by less: by what the encoder returns on the source and
  by what the decoder returns on the columns of the target. Two models that agree
  there, with the same vocabulary size and the same conversion to the element type
  of the output, give the same events and the same result, however their decoders
  differ on other inputs: no input of the decoder comes from a prediction. In
  particular two calls of one model on the same source and target return the same
  tensor.
\<close>

theorem teacher_forcing_deterministic:
  fixes m1 m2 :: "('a::linorder, 'b::zero, 'h, 'c, 'e) SequenceToSequence"
  assumes enc: "encoder m1 src = encoder m2 src"
    and V: "fc_out_out_features (decoder m1) = fc_out_out_features (decoder m2)"
    and conv: "to_float32 (decoder m1) = to_float32 (decoder m2)"
    and dec: "\<forall>t x h c. (target_column tgt (shape src ! 0) t :: 'e error + int tensor) = Inr x \<longrightarrow>
                decoder_call (decoder m1) x h c = decoder_call (decoder m2) x h c"
    and tf: "tf \<noteq> Some False"
  shows "forward m1 src tgt tf = forward m2 src tgt tf"
proof -
  from tf have b: "(case tf of None \<Rightarrow> True | Some b \<Rightarrow> b) = True"
    by (cases tf) auto
  show ?thesis
  proof (cases "shape src")
    case Nil
    then show ?thesis by (simp add: forward_def forward_body_def shape_at_def)
  next
    case s: (Cons B ss)
    show ?thesis
    proof (cases "1 < length (shape tgt)")
      case False
      then show ?thesis by (simp add: forward_def forward_body_def shape_at_def s)
    next
      case True
      then obtain Bt T ts where t: "shape tgt = Bt # T # ts"
        by (cases "shape tgt"; cases "tl (shape tgt)") auto
      from dec s have dec': "decoder_call (decoder m1) x h c = decoder_call (decoder m2) x h c"
        if "(target_column tgt B t :: 'e error + int tensor) = Inr x" for t x h c
        using that by auto
      show ?thesis
      proof (cases "encoder m2 src")
        case (Inl e)
        with enc show ?thesis by (simp add: forward_def forward_start [OF s t])
      next
        case (Inr hc)
        obtain h0 c0 where hc: "hc = (h0, c0)" by (cases hc)
        show ?thesis
        proof (cases "target_column tgt B 0 :: 'e error + int tensor")
          case (Inl e)
          with enc Inr hc show ?thesis by (simp add: forward_def forward_start [OF s t])
        next
          case col: (Inr inp0)
          let ?st0 = "\<lparr>output_tensor = zeros [B, T, fc_out_out_features (decoder m2)],
              hidden_layer = h0, cell_layer = c0, target_input = inp0,
              trace = [EncoderCall src] :: ('a, 'h, 'c) event list\<rparr>"
          have "(target_column tgt B 0 :: 'e error + int tensor) = Inr (target_input ?st0)"
            using col by simp
          with dec' conv
          have "decode_loop m1 tgt True B [1..<T] ?st0 = decode_loop m2 tgt True B [1..<T] ?st0"
            by (intro decode_loop_agree [where ?t0.0 = 0])
          with enc Inr hc col V b show ?thesis
            by (simp add: forward_def forward_start [OF s t])
        qed
      qed
    qed
  qed
qed

theorem teacher_forcing_deterministic_witness:
  "forward next_token_model scenario_source scenario_target (Some True) =
     forward column_only_model scenario_source scenario_target (Some True) \<and>
   outcome (forward next_token_model scenario_source scenario_target (Some True)) =
     Inr scenario_output \<and>
   forward next_token_model scenario_source scenario_target (Some False) \<noteq>
     forward column_only_model scenario_source scenario_target (Some False)"
proof -
  have 1: "encoder next_token_model scenario_source = encoder column_only_model scenario_source"
    by (simp add: next_token_model_def column_only_model_def)
  have 2: "fc_out_out_features (decoder next_token_model) =
           fc_out_out_features (decoder column_only_model)"
    by (simp add: next_token_model_def column_only_model_def next_token_decoder_def
        column_only_decoder_def)
  have conv: "to_float32 (decoder next_token_model) = to_float32 (decoder column_only_model)"
    by (simp add: next_token_model_def column_only_model_def next_token_decoder_def
        column_only_decoder_def)
  have 3: "\<forall>t x h c. (target_column scenario_target (shape scenario_source ! 0) t
                        :: string error + int tensor) = Inr x \<longrightarrow>
             decoder_call (decoder next_token_model) x h c =
             decoder_call (decoder column_only_model) x h c"
  proof (intro allI impI)
    fix t x h c
    assume "(target_column scenario_target (shape scenario_source ! 0) t
               :: string error + int tensor) = Inr x"
    then have "length (shape x) = 2" by (simp add: target_column_shape)
    then show "decoder_call (decoder next_token_model) x h c =
               decoder_call (decoder column_only_model) x h c"
      by (simp add: next_token_model_def column_only_model_def column_only_decoder_def)
  qed
  have 4: "Some True \<noteq> Some False" by simp
  have 5: "outcome (forward next_token_model scenario_source scenario_target (Some True)) =
     Inr scenario_output"
    by code_simp
  have 6: "outcome (forward next_token_model scenario_source scenario_target (Some False)) \<noteq>
           outcome (forward column_only_model scenario_source scenario_target (Some False))"
    by code_simp
  from 6 have 7: "forward next_token_model scenario_source scenario_target (Some False) \<noteq>
     forward column_only_model scenario_source scenario_target (Some False)"
    by auto
  from teacher_forcing_deterministic [OF 1 2 conv 3 4] 5 7 show ?thesis by simp
qed

end
